theory Spec2Isabelle
  imports Complex_Main "HOL-Library.Option_ord"
begin

section \<open>Data model of \<^verbatim>\<open>main.py\<close>\<close>

text \<open>
  A Python \<^verbatim>\<open>datetime\<close>: the wall-clock reading in microseconds (the resolution of
  \<^verbatim>\<open>datetime\<close>) and the \<^verbatim>\<open>tzinfo\<close>, \<open>None\<close> for a naive value, otherwise the offset
  from UTC in microseconds.
\<close>

record datetime =
  wall :: int
  utcoffset :: "int option"

text \<open>
  One row of the table \<^verbatim>\<open>REQUESTS\<close>, with the ten columns the INSERT statements of
  \<^verbatim>\<open>request_serial_no\<close> and \<^verbatim>\<open>request_master_unit\<close> write. Columns that the code
  guards against \<^verbatim>\<open>None\<close> are options. The source declares no key on the table: it
  only inserts into it, selects from it and deletes from it.
\<close>

record active_request =
  req_id :: int
  serial_no :: string
  part_no :: string
  revision :: "string option"
  quantity :: "rat option"
  location :: string
  deliver_to :: string
  req_time :: "datetime option"
  master_unit_no :: "string option"
  request_type :: "string option"

text \<open>
  One row of \<^verbatim>\<open>REQUESTS_HISTORY\<close>, with the thirteen columns the INSERT of
  \<^verbatim>\<open>log_request_to_history\<close> writes (the identity column \<^verbatim>\<open>history_id\<close> is the
  position in the list).
\<close>

record history_record =
  h_req_id :: int
  h_serial_no :: string
  h_part_no :: string
  h_revision :: string
  h_quantity :: rat
  h_location :: string
  h_deliver_to :: string
  h_req_time :: datetime
  h_fulfilled_time :: int
  h_duration_minutes :: int
  h_fulfillment_type :: string
  h_current_location :: string
  h_request_type :: "string option"

text \<open>
  The database: both tables in insertion order, and a journal of the data-changing
  statements executed without an exception so far, oldest first. The connection pool is
  created without autocommit: \<^verbatim>\<open>log_request_to_history\<close> commits its INSERT on a
  connection of its own, and the DELETE statements of a call belong to the transaction
  that the commit after them ends.
\<close>

datatype db_op =
    Insert_request active_request
  | Insert_history history_record
  | Delete_by_req_id int
  | Delete_by_serial_no string

record database =
  requests :: "active_request list"
  requests_history :: "history_record list"
  journal :: "db_op list"

text \<open>The dictionaries appended to \<^verbatim>\<open>containers_to_remove\<close>.\<close>

record container =
  c_req_id :: int
  c_serial_no :: string
  c_part_no :: string
  c_revision :: "string option"
  c_quantity :: "rat option"
  c_stored_location :: string
  c_current_location :: string
  c_deliver_to :: string
  c_req_time :: "datetime option"
  c_request_type :: "string option"

text \<open>The payloads handed to \<^verbatim>\<open>send_cleanup_notification\<close>.\<close>

datatype notification =
    Auto_cleanup_complete nat nat "(string \<times> string \<times> string) list" int
  | Auto_cleanup_error string int

subsection \<open>The world outside the process\<close>

text \<open>
  What the ERP answers to the production-locations query, as far as
  \<^verbatim>\<open>get_prod_locations\<close> tells the cases apart.
\<close>

datatype tables = No_tables | Unreadable_tables | Location_column "string list"

datatype http_reply =
    Http_timeout
  | Http_request_error
  | Http_other_exception string
  | Http_response int "tables option"

text \<open>
  What \<^verbatim>\<open>get_container_by_serial_no\<close> gives \<^verbatim>\<open>check_container_current_location\<close>:
  an exception, or the list of records, of which only the \<^verbatim>\<open>Location\<close> entry is read.
\<close>

datatype container_reply = Erp_raises | Erp_records "string option list"

text \<open>
  The environment of one call: the ERP's answers; whether the INSERT into the history
  table for a given request id and serial number, with its commit, succeeds; the
  exception, if any, that getting the first connection of the call or its first
  statement raises (\<open>db_error\<close>), that getting the connection for the removal loop raises
  (\<open>removal_error\<close>), that a DELETE statement raises (\<open>delete_error\<close>) and that the commit
  after the DELETE statements raises (\<open>commit_error\<close>); and the two clocks
  \<^verbatim>\<open>datetime.utcnow()\<close> and \<^verbatim>\<open>datetime.now()\<close>.
\<close>

record env =
  prod_reply :: http_reply
  container_reply :: "string \<Rightarrow> container_reply"
  history_insert_ok :: "int \<Rightarrow> string \<Rightarrow> bool"
  db_error :: "string option"
  removal_error :: "string option"
  delete_error :: "db_op \<Rightarrow> string option"
  commit_error :: "string option"
  utcnow :: int
  now :: int

section \<open>ERP client\<close>

text \<open>
  \<^verbatim>\<open>get_prod_locations\<close>: every failure it handles comes back as the empty list; an
  exception of another class leaves the function (\<open>Inl\<close>).
\<close>

fun get_prod_locations :: "http_reply \<Rightarrow> string + string list" where
  "get_prod_locations Http_timeout = Inr []"
| "get_prod_locations Http_request_error = Inr []"
| "get_prod_locations (Http_other_exception msg) = Inl msg"
| "get_prod_locations (Http_response code body) =
     (if code \<noteq> 200 then Inr []
      else case body of
        None \<Rightarrow> Inr []
      | Some No_tables \<Rightarrow> Inr []
      | Some Unreadable_tables \<Rightarrow> Inr []
      | Some (Location_column locations) \<Rightarrow> Inr locations)"

definition check_container_current_location :: "env \<Rightarrow> string \<Rightarrow> string option" where
  "check_container_current_location e serial =
     (case container_reply e serial of
        Erp_raises \<Rightarrow> None
      | Erp_records [] \<Rightarrow> None
      | Erp_records (first # _) \<Rightarrow> first)"

section \<open>History logging\<close>

definition to_utc :: "datetime \<Rightarrow> int" where
  "to_utc t = (case utcoffset t of None \<Rightarrow> wall t | Some off \<Rightarrow> wall t - off)"

subsection \<open>Floats\<close>

text \<open>
  A Python float is a double: a quotient is rounded to the nearest number with 53
  significant bits, a tie going to the even one. \<open>binade x\<close> is the exponent \<open>e\<close> with
  \<open>2 powi e \<le> x < 2 powi (e + 1)\<close>, looked up among the exponents of the normal
  doubles; outside them (a range that the difference of two datetimes, at most some
  3.2e17 microseconds and a multiple of one microsecond, never reaches) the value is
  left as it is.
\<close>

definition round_half_even :: "rat \<Rightarrow> int" where
  "round_half_even t =
     (let f = \<lfloor>t\<rfloor>; r = t - of_int f
      in if r < 1 / 2 then f else if 1 / 2 < r then f + 1 else if even f then f else f + 1)"

definition exponents :: "int list" where
  "exponents = [-1022..1023]"

definition binade :: "rat \<Rightarrow> int option" where
  "binade x = find (\<lambda>e. 2 powi e \<le> x \<and> x < 2 powi (e + 1)) exponents"

text \<open>Round to nearest, ties to even, on a binary grid of 53 bits.\<close>

definition to_double :: "rat \<Rightarrow> rat" where
  "to_double x =
     (if x = 0 then 0
      else case binade \<bar>x\<bar> of
        None \<Rightarrow> x
      | Some e \<Rightarrow> sgn x * of_int (round_half_even (\<bar>x\<bar> / 2 powi (e - 52))) * 2 powi (e - 52))"

text \<open>
  \<^verbatim>\<open>int((fulfilled_time - req_time_utc).total_seconds() / 60)\<close>: the difference is a
  \<^verbatim>\<open>timedelta\<close>, an exact number of microseconds; \<^verbatim>\<open>total_seconds()\<close> divides it by
  \<^verbatim>\<open>10**6\<close> into a float, the division by 60 gives another float, and \<^verbatim>\<open>int\<close>
  truncates towards zero.
\<close>

definition duration_minutes :: "int \<Rightarrow> int \<Rightarrow> int" where
  "duration_minutes fulfilled requested =
     (let total_seconds = to_double (of_int (fulfilled - requested) / 1000000);
          minutes = to_double (total_seconds / 60)
      in if minutes < 0 then - \<lfloor>- minutes\<rfloor> else \<lfloor>minutes\<rfloor>)"

definition append_history :: "history_record \<Rightarrow> database \<Rightarrow> database" where
  "append_history h db =
     db\<lparr>requests_history := requests_history db @ [h],
        journal := journal db @ [Insert_history h]\<rparr>"

text \<open>
  \<^verbatim>\<open>log_request_to_history\<close> returns \<^verbatim>\<open>True\<close> with the row committed, or \<^verbatim>\<open>False\<close> with
  the database as it was: when \<^verbatim>\<open>req_time\<close> is \<^verbatim>\<open>None\<close> (the attribute access raises) and
  when the INSERT fails.
\<close>

definition log_request_to_history ::
  "env \<Rightarrow> database \<Rightarrow> int \<Rightarrow> string \<Rightarrow> string \<Rightarrow> string \<Rightarrow> rat \<Rightarrow> string \<Rightarrow> string \<Rightarrow>
   datetime option \<Rightarrow> string \<Rightarrow> string \<Rightarrow> string option \<Rightarrow> bool \<times> database" where
  "log_request_to_history e db rid serial part rvsn qty loc deliver rtime
       current_location fulfillment_type rtype =
     (case rtime of
        None \<Rightarrow> (False, db)
      | Some t \<Rightarrow>
          let fulfilled_time = utcnow e;
              req_time_utc = to_utc t;
              minutes = duration_minutes fulfilled_time req_time_utc
          in if history_insert_ok e rid serial
             then (True, append_history
                    \<lparr>h_req_id = rid, h_serial_no = serial, h_part_no = part,
                     h_revision = rvsn, h_quantity = qty, h_location = loc,
                     h_deliver_to = deliver, h_req_time = t,
                     h_fulfilled_time = fulfilled_time, h_duration_minutes = minutes,
                     h_fulfillment_type = fulfillment_type,
                     h_current_location = current_location, h_request_type = rtype\<rparr> db)
             else (False, db))"

section \<open>Automated cleanup\<close>

text \<open>\<^verbatim>\<open>SELECT ... FROM REQUESTS ORDER BY req_time DESC\<close>; a NULL sorts below every value.\<close>

definition select_requests :: "database \<Rightarrow> active_request list" where
  "select_requests db = rev (sort_key (\<lambda>r. map_option wall (req_time r)) (requests db))"

definition delete_by_req_id :: "int \<Rightarrow> database \<Rightarrow> database" where
  "delete_by_req_id rid db =
     db\<lparr>requests := filter (\<lambda>r. req_id r \<noteq> rid) (requests db),
        journal := journal db @ [Delete_by_req_id rid]\<rparr>"

definition delete_by_serial_no :: "string \<Rightarrow> database \<Rightarrow> database" where
  "delete_by_serial_no serial db =
     db\<lparr>requests := filter (\<lambda>r. serial_no r \<noteq> serial) (requests db),
        journal := journal db @ [Delete_by_serial_no serial]\<rparr>"

definition flagged :: "active_request \<Rightarrow> string \<Rightarrow> container" where
  "flagged r current =
     \<lparr>c_req_id = req_id r, c_serial_no = serial_no r, c_part_no = part_no r,
      c_revision = revision r, c_quantity = quantity r, c_stored_location = location r,
      c_current_location = current, c_deliver_to = deliver_to r,
      c_req_time = req_time r, c_request_type = request_type r\<rparr>"

text \<open>
  The loop over \<^verbatim>\<open>active_requests\<close> that fills \<^verbatim>\<open>containers_to_remove\<close>.
  \<^verbatim>\<open>if current_location:\<close> is false for \<^verbatim>\<open>None\<close> and for the empty string.
\<close>

fun flag_containers :: "env \<Rightarrow> string list \<Rightarrow> active_request list \<Rightarrow> container list" where
  "flag_containers e prod_locations [] = []"
| "flag_containers e prod_locations (r # rs) =
     (if request_type r = Some ''PUT_BACK'' then flag_containers e prod_locations rs
      else case check_container_current_location e (serial_no r) of
        None \<Rightarrow> flag_containers e prod_locations rs
      | Some current \<Rightarrow>
          if current \<noteq> [] \<and> current \<in> set prod_locations
          then flagged r current # flag_containers e prod_locations rs
          else flag_containers e prod_locations rs)"

definition revision_or_empty :: "string option \<Rightarrow> string" where
  "revision_or_empty rvsn = (case rvsn of None \<Rightarrow> [] | Some s \<Rightarrow> s)"

definition float_or_zero :: "rat option \<Rightarrow> rat" where
  "float_or_zero q = (case q of None \<Rightarrow> 0 | Some v \<Rightarrow> if v \<noteq> 0 then v else 0)"

definition log_container :: "env \<Rightarrow> string \<Rightarrow> container \<Rightarrow> database \<Rightarrow> bool \<times> database" where
  "log_container e fulfillment_type c db =
     log_request_to_history e db (c_req_id c) (c_serial_no c) (c_part_no c)
       (revision_or_empty (c_revision c)) (float_or_zero (c_quantity c))
       (c_stored_location c) (c_deliver_to c) (c_req_time c)
       (c_current_location c) fulfillment_type (c_request_type c)"

text \<open>
  The loop over \<^verbatim>\<open>containers_to_remove\<close> of the automated cleanup, with its counter
  \<^verbatim>\<open>successful_deletions\<close>. A DELETE that raises is caught inside the loop: the history
  row stays, the request stays, the loop goes on.
\<close>

fun remove_containers :: "env \<Rightarrow> container list \<Rightarrow> database \<Rightarrow> nat \<Rightarrow> database \<times> nat" where
  "remove_containers e [] db successful_deletions = (db, successful_deletions)"
| "remove_containers e (c # cs) db successful_deletions =
     (case log_container e ''auto_cleanup'' c db of
        (True, db') \<Rightarrow>
          (case delete_error e (Delete_by_req_id (c_req_id c)) of
             None \<Rightarrow>
               remove_containers e cs (delete_by_req_id (c_req_id c) db')
                 (Suc successful_deletions)
           | Some msg \<Rightarrow> remove_containers e cs db' successful_deletions)
      | (False, db') \<Rightarrow> remove_containers e cs db' successful_deletions)"

text \<open>
  The pool is created without autocommit, so the DELETE statements of a call belong to
  the transaction that its \<^verbatim>\<open>commit\<close> ends. A commit that raises leaves them
  uncommitted, and the server discards them: \<^verbatim>\<open>REQUESTS\<close> is as before the call, while
  the history rows, each committed by \<^verbatim>\<open>log_request_to_history\<close> on a connection of
  its own, stay. The journal keeps the statements as they were executed.
\<close>

definition rollback :: "database \<Rightarrow> database \<Rightarrow> database" where
  "rollback before after = after\<lparr>requests := requests before\<rparr>"

definition removed_summary :: "container \<Rightarrow> string \<times> string \<times> string" where
  "removed_summary c = (c_serial_no c, c_current_location c, c_deliver_to c)"

text \<open>
  \<^verbatim>\<open>automated_container_cleanup\<close>: the database after the call and the notifications
  sent, in order. The two \<^verbatim>\<open>return\<close> statements inside the \<^verbatim>\<open>try\<close> leave without a
  notification; an exception (from the fetch, from a connection, from the commit)
  reaches the handler, which sends \<^verbatim>\<open>auto_cleanup_error\<close>.
  The completion notification carries \<^verbatim>\<open>len(containers_to_remove)\<close>.
\<close>

definition automated_container_cleanup :: "env \<Rightarrow> database \<Rightarrow> database \<times> notification list" where
  "automated_container_cleanup e db =
     (case get_prod_locations (prod_reply e) of
        Inl msg \<Rightarrow> (db, [Auto_cleanup_error msg (now e)])
      | Inr prod_locations \<Rightarrow>
          if prod_locations = [] then (db, [])
          else
            (case db_error e of
               Some msg \<Rightarrow> (db, [Auto_cleanup_error msg (now e)])
             | None \<Rightarrow>
              (let active_requests = select_requests db;
                   containers_to_remove = flag_containers e prod_locations active_requests;
                   complete = Auto_cleanup_complete (length active_requests)
                                (length containers_to_remove)
                                (map removed_summary containers_to_remove) (now e)
               in if containers_to_remove \<noteq> []
                  then if length containers_to_remove > 10 then (db, [])
                       else
                         (case removal_error e of
                            Some msg \<Rightarrow> (db, [Auto_cleanup_error msg (now e)])
                          | None \<Rightarrow>
                              (case commit_error e of
                                 None \<Rightarrow>
                                   (fst (remove_containers e containers_to_remove db 0),
                                    [complete])
                               | Some msg \<Rightarrow>
                                   (rollback db
                                      (fst (remove_containers e containers_to_remove db 0)),
                                    [Auto_cleanup_error msg (now e)])))
                  else (db, [complete]))))"

section \<open>Manual cleanup\<close>

text \<open>
  The dictionary \<^verbatim>\<open>results\<close> that \<^verbatim>\<open>manual_container_cleanup\<close> returns, or the short
  dictionary with status \<^verbatim>\<open>error\<close> and a message (both counts are 0 there).
\<close>

record cleanup_results =
  res_status :: string
  res_checked_requests :: nat
  res_removed_containers :: nat
  res_prod_locations :: "string list"
  res_containers_removed :: "container list"
  res_errors :: "string list"

datatype manual_outcome = Results cleanup_results | Error_result string

text \<open>
  The manual loop stores \<^verbatim>\<open>float(quantity)\<close> (0.0 for \<^verbatim>\<open>None\<close>) and the ISO string of
  \<^verbatim>\<open>req_time\<close>; \<^verbatim>\<open>datetime.fromisoformat\<close> reads the string back in the removal loop,
  and \<^verbatim>\<open>datetime.now()\<close> stands in when that fails, which is the case for the text of
  \<^verbatim>\<open>None\<close>. \<^verbatim>\<open>check_container_current_location\<close> raises nothing, so the flagging loop
  records no error. The removal loop records a failed history write and a DELETE that
  raises; an exception outside the loops (a connection, the commit) ends the call with
  the short dictionary.
\<close>

definition flagged_manual :: "active_request \<Rightarrow> string \<Rightarrow> container" where
  "flagged_manual r current =
     (flagged r current)\<lparr>c_quantity := Some (case quantity r of None \<Rightarrow> 0 | Some v \<Rightarrow> v)\<rparr>"

fun flag_containers_manual :: "env \<Rightarrow> string list \<Rightarrow> active_request list \<Rightarrow> container list" where
  "flag_containers_manual e prod_locations [] = []"
| "flag_containers_manual e prod_locations (r # rs) =
     (if request_type r = Some ''PUT_BACK'' then flag_containers_manual e prod_locations rs
      else case check_container_current_location e (serial_no r) of
        None \<Rightarrow> flag_containers_manual e prod_locations rs
      | Some current \<Rightarrow>
          if current \<noteq> [] \<and> current \<in> set prod_locations
          then flagged_manual r current # flag_containers_manual e prod_locations rs
          else flag_containers_manual e prod_locations rs)"

definition req_time_dt :: "env \<Rightarrow> container \<Rightarrow> datetime" where
  "req_time_dt e c =
     (case c_req_time c of Some t \<Rightarrow> t | None \<Rightarrow> \<lparr>wall = now e, utcoffset = None\<rparr>)"

definition log_container_manual :: "env \<Rightarrow> container \<Rightarrow> database \<Rightarrow> bool \<times> database" where
  "log_container_manual e c db =
     log_request_to_history e db (c_req_id c) (c_serial_no c) (c_part_no c)
       (revision_or_empty (c_revision c)) (float_or_zero (c_quantity c))
       (c_stored_location c) (c_deliver_to c) (Some (req_time_dt e c))
       (c_current_location c) ''manual_cleanup'' (c_request_type c)"

fun remove_containers_manual ::
  "env \<Rightarrow> container list \<Rightarrow> database \<Rightarrow> string list \<Rightarrow> database \<times> string list" where
  "remove_containers_manual e [] db errs = (db, errs)"
| "remove_containers_manual e (c # cs) db errs =
     (case log_container_manual e c db of
        (True, db') \<Rightarrow>
          (case delete_error e (Delete_by_req_id (c_req_id c)) of
             None \<Rightarrow> remove_containers_manual e cs (delete_by_req_id (c_req_id c) db') errs
           | Some msg \<Rightarrow>
               remove_containers_manual e cs db'
                 (errs @ [''Error removing container '' @ c_serial_no c @ '': '' @ msg]))
      | (False, db') \<Rightarrow>
          remove_containers_manual e cs db'
            (errs @ [''Failed to log container '' @ c_serial_no c @
                     '' to history, skipping deletion'']))"

definition manual_container_cleanup :: "env \<Rightarrow> database \<Rightarrow> database \<times> manual_outcome" where
  "manual_container_cleanup e db =
     (case get_prod_locations (prod_reply e) of
        Inl msg \<Rightarrow> (db, Error_result (''Error fetching production locations: '' @ msg))
      | Inr prod_locations \<Rightarrow>
          (case db_error e of
             Some msg \<Rightarrow>
               (db, Error_result (''Error fetching active requests from database: '' @ msg))
           | None \<Rightarrow>
               (let active_requests = select_requests db;
                    containers_to_remove = flag_containers_manual e prod_locations active_requests;
                    results = (\<lambda>errs.
                      Results \<lparr>res_status = ''success'',
                               res_checked_requests = length active_requests,
                               res_removed_containers = length containers_to_remove,
                               res_prod_locations = prod_locations,
                               res_containers_removed = containers_to_remove,
                               res_errors = errs\<rparr>)
                in if containers_to_remove \<noteq> []
                   then
                     (case removal_error e of
                        Some msg \<Rightarrow> (db, Error_result msg)
                      | None \<Rightarrow>
                          (case remove_containers_manual e containers_to_remove db [] of
                             (db', errs) \<Rightarrow>
                               (case commit_error e of
                                  None \<Rightarrow> (db', results errs)
                                | Some msg \<Rightarrow> (rollback db db', Error_result msg))))
                   else (db, results []))))"

section \<open>Manual deletion\<close>

datatype http_result = Json_response string | Http_exception nat string

definition type_or_pick_up :: "string option \<Rightarrow> string" where
  "type_or_pick_up t = (case t of None \<Rightarrow> ''PICK_UP'' | Some s \<Rightarrow> if s \<noteq> [] then s else ''PICK_UP'')"

text \<open>
  \<^verbatim>\<open>delete_request\<close>: \<^verbatim>\<open>fetchone\<close> takes the first row with the serial number; the
  history write is attempted, a failure is logged as a warning, and the DELETE by serial
  number follows in both cases. A DELETE or a commit that raises ends the call with
  status 500 and deletes nothing; a history row already written stays.
\<close>

definition delete_request :: "env \<Rightarrow> string \<Rightarrow> database \<Rightarrow> database \<times> http_result" where
  "delete_request e serial db =
     (case db_error e of
        Some msg \<Rightarrow> (db, Http_exception 500 ''Internal server error'')
      | None \<Rightarrow>
          (case find (\<lambda>r. serial_no r = serial) (requests db) of
             None \<Rightarrow> (db, Http_exception 404 ''Request not found'')
           | Some r \<Rightarrow>
               (let (history_logged, db') =
                      log_request_to_history e db (req_id r) (serial_no r) (part_no r)
                        (revision_or_empty (revision r)) (float_or_zero (quantity r))
                        (location r) (deliver_to r) (req_time r)
                        ''Unknown (Manual Delete)'' ''manual_delete''
                        (Some (type_or_pick_up (request_type r)))
                in case delete_error e (Delete_by_serial_no serial) of
                     Some msg \<Rightarrow> (db', Http_exception 500 ''Internal server error'')
                   | None \<Rightarrow>
                       (case commit_error e of
                          Some msg \<Rightarrow>
                            (rollback db' (delete_by_serial_no serial db'),
                             Http_exception 500 ''Internal server error'')
                        | None \<Rightarrow>
                            (delete_by_serial_no serial db',
                             Json_response ''Request deleted successfully'')))))"

section \<open>Submission and the global counter\<close>

text \<open>
  The JSON body of a submission, with \<^verbatim>\<open>req_time\<close> as \<^verbatim>\<open>datetime.fromisoformat\<close> reads it
  (\<open>None\<close> when it raises) and \<^verbatim>\<open>request_type\<close> absent as \<open>None\<close>.
\<close>

record submission =
  s_serial_no :: string
  s_part_no :: string
  s_revision :: "string option"
  s_quantity :: "rat option"
  s_location :: string
  s_workcenter :: string
  s_req_time :: "datetime option"
  s_master_unit_no :: "string option"
  s_request_type :: "string option"

definition insert_request :: "active_request \<Rightarrow> database \<Rightarrow> database" where
  "insert_request r db =
     db\<lparr>requests := requests db @ [r], journal := journal db @ [Insert_request r]\<rparr>"

definition req_time_utc :: "env \<Rightarrow> datetime option \<Rightarrow> datetime" where
  "req_time_utc e parsed =
     (case parsed of
        Some t \<Rightarrow> \<lparr>wall = to_utc t, utcoffset = None\<rparr>
      | None \<Rightarrow> \<lparr>wall = utcnow e, utcoffset = None\<rparr>)"

text \<open>
  \<^verbatim>\<open>request_serial_no\<close> (the route \<^verbatim>\<open>/part/{part_no}/{serial_no}\<close>). The module-level
  variable \<^verbatim>\<open>req_id\<close> is the argument \<open>counter\<close>; the function returns the message, the
  variable afterwards and the database. The variable is incremented after an INSERT of
  one row and its commit, and left alone when the INSERT or the commit raises.
\<close>

definition request_serial_no ::
  "env \<Rightarrow> submission \<Rightarrow> int \<Rightarrow> database \<Rightarrow> string \<times> int \<times> database" where
  "request_serial_no e data counter db =
     (case db_error e of
        Some msg \<Rightarrow> (''Error'', counter, db)
      | None \<Rightarrow>
          (let db' = insert_request
             \<lparr>req_id = counter, serial_no = s_serial_no data, part_no = s_part_no data,
              revision = s_revision data, quantity = s_quantity data,
              location = s_location data, deliver_to = s_workcenter data,
              req_time = Some (req_time_utc e (s_req_time data)),
              master_unit_no = s_master_unit_no data,
              request_type =
                Some (case s_request_type data of None \<Rightarrow> ''PICK_UP'' | Some t \<Rightarrow> t)\<rparr> db
           in case commit_error e of
                Some msg \<Rightarrow> (''Error'', counter, rollback db db')
              | None \<Rightarrow> (''Success'', counter + 1, db')))"

text \<open>
  \<^verbatim>\<open>request_master_unit\<close> from its INSERT on: the master unit, and the part number,
  total quantity and location text worked out from its containers before.
\<close>

record unit_submission =
  u_master_unit :: string
  u_part_no :: string
  u_revision :: string
  u_total_quantity :: rat
  u_location_str :: string
  u_workcenter :: string
  u_req_time :: "datetime option"
  u_request_type :: "string option"

definition request_master_unit ::
  "env \<Rightarrow> unit_submission \<Rightarrow> int \<Rightarrow> database \<Rightarrow> string \<times> int \<times> database" where
  "request_master_unit e data counter db =
     (case db_error e of
        Some msg \<Rightarrow> (''Error'', counter, db)
      | None \<Rightarrow>
          (let db' = insert_request
             \<lparr>req_id = counter, serial_no = ''MU-'' @ u_master_unit data,
              part_no = u_part_no data, revision = Some (u_revision data),
              quantity = Some (u_total_quantity data), location = u_location_str data,
              deliver_to = u_workcenter data,
              req_time = Some (req_time_utc e (u_req_time data)),
              master_unit_no = Some (u_master_unit data),
              request_type =
                Some (case u_request_type data of None \<Rightarrow> ''PICK_UP'' | Some t \<Rightarrow> t)\<rparr> db
           in case commit_error e of
                Some msg \<Rightarrow> (''Error'', counter, rollback db db')
              | None \<Rightarrow> (''Success'', counter + 1, db')))"

text \<open>A new process runs the module again: \<^verbatim>\<open>req_id = 0\<close>. The database stays.\<close>

definition restart :: "int \<Rightarrow> int" where
  "restart counter = 0"

section \<open>Reading the effect of a call off the database\<close>

text \<open>
  Whether the history write of the automated pass for a flagged container commits, and
  the row it writes.
\<close>

definition history_logged :: "env \<Rightarrow> container \<Rightarrow> bool" where
  "history_logged e c = (c_req_time c \<noteq> None \<and> history_insert_ok e (c_req_id c) (c_serial_no c))"

text \<open>Whether the DELETE for a flagged container executes.\<close>

definition delete_executes :: "env \<Rightarrow> container \<Rightarrow> bool" where
  "delete_executes e c = (delete_error e (Delete_by_req_id (c_req_id c)) = None)"

definition history_row :: "env \<Rightarrow> string \<Rightarrow> container \<Rightarrow> datetime \<Rightarrow> history_record" where
  "history_row e fulfillment_type c t =
     \<lparr>h_req_id = c_req_id c, h_serial_no = c_serial_no c, h_part_no = c_part_no c,
      h_revision = revision_or_empty (c_revision c), h_quantity = float_or_zero (c_quantity c),
      h_location = c_stored_location c, h_deliver_to = c_deliver_to c, h_req_time = t,
      h_fulfilled_time = utcnow e, h_duration_minutes = duration_minutes (utcnow e) (to_utc t),
      h_fulfillment_type = fulfillment_type, h_current_location = c_current_location c,
      h_request_type = c_request_type c\<rparr>"

text \<open>
  The history rows and the journal entries that a call added: \<open>db\<close> before the call,
  \<open>db'\<close> after it.
\<close>

definition new_history :: "database \<Rightarrow> database \<Rightarrow> history_record list" where
  "new_history db db' = drop (length (requests_history db)) (requests_history db')"

definition new_journal :: "database \<Rightarrow> database \<Rightarrow> db_op list" where
  "new_journal db db' = drop (length (journal db)) (journal db')"

text \<open>
  A journal segment of INSERTs into the history and DELETEs by request id, in which
  every DELETE stands directly after the INSERT of a history row with its request id.
\<close>

fun paired :: "db_op list \<Rightarrow> bool" where
  "paired [] = True"
| "paired (Insert_history h # Delete_by_req_id rid # ops) = (h_req_id h = rid \<and> paired ops)"
| "paired (Insert_history h # ops) = paired ops"
| "paired _ = False"

text \<open>
  A call is audited when its journal segment is paired and every row of \<^verbatim>\<open>REQUESTS\<close>
  that it removed has a history row, written by the same call, with the row's request id
  and serial number.
\<close>

definition audited :: "database \<Rightarrow> database \<Rightarrow> bool" where
  "audited db db' \<longleftrightarrow>
     paired (new_journal db db') \<and>
     (\<forall>r \<in> set (requests db). r \<notin> set (requests db') \<longrightarrow>
        (\<exists>h \<in> set (new_history db db'). h_req_id h = req_id r \<and> h_serial_no h = serial_no r))"

section \<open>Example values\<close>

text \<open>
Concrete requests, databases and environments on which the theorems are run.
\<close>

definition example_request :: "int \<Rightarrow> string \<Rightarrow> string \<Rightarrow> active_request" where
  "example_request rid serial rtype =
     \<lparr>req_id = rid, serial_no = serial, part_no = ''P-100'', revision = Some ''A'',
      quantity = Some 5, location = ''WH-1'', deliver_to = ''WC-7'',
      req_time = Some \<lparr>wall = 0, utcoffset = None\<rparr>, master_unit_no = None,
      request_type = Some rtype\<rparr>"

definition example_db :: "active_request list \<Rightarrow> database" where
  "example_db rs = \<lparr>requests = rs, requests_history = [], journal = []\<rparr>"

definition example_env :: "(string \<Rightarrow> container_reply) \<Rightarrow> (int \<Rightarrow> string \<Rightarrow> bool) \<Rightarrow> env" where
  "example_env erp ok =
     \<lparr>prod_reply = Http_response 200 (Some (Location_column [''PROD-A'', ''PROD-B''])),
      container_reply = erp, history_insert_ok = ok, db_error = None,
      removal_error = None, delete_error = (\<lambda>_. None), commit_error = None,
      utcnow = 125000000, now = 7325000000\<rparr>"

text \<open>
An ERP that knows the listed serial numbers at the listed locations and no others.
\<close>

definition erp_at :: "(string \<times> string) list \<Rightarrow> string \<Rightarrow> container_reply" where
  "erp_at table serial =
     (case map_of table serial of None \<Rightarrow> Erp_records [] | Some loc \<Rightarrow> Erp_records [Some loc])"

definition example_submission :: "string \<Rightarrow> string \<Rightarrow> submission" where
  "example_submission serial rtype =
     \<lparr>s_serial_no = serial, s_part_no = ''P-100'', s_revision = Some ''A'',
      s_quantity = Some 5, s_location = ''WH-1'', s_workcenter = ''WC-7'',
      s_req_time = Some \<lparr>wall = 0, utcoffset = None\<rparr>, s_master_unit_no = None,
      s_request_type = Some rtype\<rparr>"

text \<open>
  The database after a process has taken one submission into the empty database and a
  second process, started after the first has ended, has taken another.
\<close>

definition two_processes :: "env \<Rightarrow> submission \<Rightarrow> submission \<Rightarrow> database" where
  "two_processes e first second =
     (case request_serial_no e first 0 (example_db []) of
        (_, counter, db) \<Rightarrow>
          (case request_serial_no e second (restart counter) db of (_, _, db') \<Rightarrow> db'))"

definition eleven_requests :: "active_request list" where
  "eleven_requests =
     map (\<lambda>(rid, serial). example_request rid serial ''PICK_UP'')
       [(0, ''S1000''), (1, ''S1001''), (2, ''S1002''), (3, ''S1003''), (4, ''S1004''),
        (5, ''S1005''), (6, ''S1006''), (7, ''S1007''), (8, ''S1008''), (9, ''S1009''),
        (10, ''S1010'')]"

lemmas example_defs =
  example_env_def example_db_def example_request_def example_submission_def erp_at_def
  eleven_requests_def two_processes_def

lemmas run_defs =
  automated_container_cleanup_def manual_container_cleanup_def delete_request_def
  request_serial_no_def restart_def insert_request_def req_time_utc_def
  select_requests_def check_container_current_location_def flagged_def flagged_manual_def
  log_container_def log_container_manual_def log_request_to_history_def req_time_dt_def
  delete_by_req_id_def delete_by_serial_no_def append_history_def removed_summary_def
  revision_or_empty_def float_or_zero_def type_or_pick_up_def to_utc_def rollback_def
  Let_def

section \<open>The audit writer\<close>

subsection \<open>Rounding\<close>

lemma round_half_even_le: "t \<le> of_int n \<Longrightarrow> round_half_even t \<le> n"
proof -
  assume a: "t \<le> of_int n"
  show ?thesis
  proof (cases "t = of_int n")
    case True
    then show ?thesis by (simp add: round_half_even_def)
  next
    case False
    with a have "t < of_int n" by simp
    then have "\<lfloor>t\<rfloor> < n" by (simp add: floor_less_iff)
    then show ?thesis by (auto simp: round_half_even_def Let_def)
  qed
qed

lemma round_half_even_ge: "of_int n \<le> t \<Longrightarrow> n \<le> round_half_even t"
proof -
  assume "of_int n \<le> t"
  then have "n \<le> \<lfloor>t\<rfloor>" by (simp add: le_floor_iff)
  then show ?thesis by (auto simp: round_half_even_def Let_def)
qed

lemma round_half_even_le_half: "t < of_int n + 1 / 2 \<Longrightarrow> round_half_even t \<le> n"
proof -
  assume a: "t < of_int n + 1 / 2"
  then have "t < of_int (n + 1)" by simp
  then have "\<lfloor>t\<rfloor> < n + 1" unfolding floor_less_iff .
  then have f: "\<lfloor>t\<rfloor> \<le> n" by simp
  show ?thesis
  proof (cases "\<lfloor>t\<rfloor> = n")
    case True
    with a have "t - of_int \<lfloor>t\<rfloor> < 1 / 2" by simp
    with True show ?thesis by (simp add: round_half_even_def Let_def)
  next
    case False
    with f have "\<lfloor>t\<rfloor> < n" by simp
    then show ?thesis by (auto simp: round_half_even_def Let_def)
  qed
qed

lemma set_exponents: "set exponents = {- 1022..1023}"
  unfolding exponents_def by (rule set_upto)

lemma binade_bounds:
  "binade x = Some e \<Longrightarrow> 2 powi e \<le> x \<and> x < 2 powi (e + 1)"
  unfolding binade_def find_Some_iff by blast

lemma binade_unique:
  fixes x :: rat
  assumes "2 powi e \<le> x" "x < 2 powi (e + 1)" "2 powi e' \<le> x" "x < 2 powi (e' + 1)"
  shows "e = e'"
proof -
  have 1: "e < e' + 1"
  proof (rule ccontr)
    assume "\<not> e < e' + 1"
    then have "(2::rat) powi (e' + 1) \<le> 2 powi e" by (intro power_int_increasing) auto
    with assms show False by simp
  qed
  have 2: "e' < e + 1"
  proof (rule ccontr)
    assume "\<not> e' < e + 1"
    then have "(2::rat) powi (e + 1) \<le> 2 powi e'" by (intro power_int_increasing) auto
    with assms show False by simp
  qed
  from 1 2 show ?thesis by simp
qed

lemma binade_eqI:
  assumes "2 powi e \<le> x" "x < 2 powi (e + 1)" "- 1022 \<le> e" "e \<le> 1023"
  shows "binade x = Some e"
proof (cases "binade x")
  case None
  then have "\<forall>i \<in> set exponents. \<not> (2 powi i \<le> x \<and> x < 2 powi (i + 1))"
    unfolding binade_def find_None_iff by blast
  moreover have "e \<in> set exponents" using assms by (simp add: set_exponents)
  ultimately show ?thesis using assms by blast
next
  case (Some e')
  from binade_bounds [OF Some] assms have "e = e'" by (auto intro: binade_unique)
  with Some show ?thesis by simp
qed

text \<open>Barriers: rounding does not cross a multiple of the unit in the last place.\<close>

lemma grid_coarser:
  fixes j :: int
  assumes "e \<le> E"
  shows "of_int j * (2::rat) powi (E - 52) = of_int (j * 2 ^ nat (E - e)) * 2 powi (e - 52)"
proof -
  have "(2::rat) powi (E - 52) = 2 powi ((E - e) + (e - 52))"
    by simp
  also have "\<dots> = 2 powi (E - e) * 2 powi (e - 52)"
    by (rule power_int_add) simp
  also have "(2::rat) powi (E - e) = 2 ^ nat (E - e)"
    using assms by (simp add: power_int_nonneg_exp)
  finally show ?thesis by simp
qed

lemma to_double_pos:
  assumes "0 < x" "binade x = Some e"
  shows "to_double x = of_int (round_half_even (x / 2 powi (e - 52))) * 2 powi (e - 52)"
  using assms by (simp add: to_double_def)

lemma to_double_ge:
  assumes x: "0 < x" "x < 2 powi (E + 1)" and y: "of_int j * 2 powi (E - 52) \<le> x"
  shows "of_int j * 2 powi (E - 52) \<le> to_double x"
proof (cases "binade x")
  case None
  with x y show ?thesis by (simp add: to_double_def)
next
  case (Some e)
  from binade_bounds [OF Some] x have "(2::rat) powi e < 2 powi (E + 1)" by simp
  then have "e \<le> E"
    by (metis not_less power_int_increasing one_le_numeral zle_add1_eq_le leD linorder_le_less_linear)
  let ?u = "(2::rat) powi (e - 52)"
  let ?J = "j * 2 ^ nat (E - e)"
  have u: "0 < ?u" by simp
  have g: "of_int j * (2::rat) powi (E - 52) = of_int ?J * ?u"
    using \<open>e \<le> E\<close> by (rule grid_coarser)
  with y have "of_int ?J * ?u \<le> x" by simp
  then have "of_int ?J \<le> x / ?u" using u by (simp add: pos_le_divide_eq)
  then have "?J \<le> round_half_even (x / ?u)" by (rule round_half_even_ge)
  then have "rat_of_int ?J \<le> rat_of_int (round_half_even (x / ?u))"
    by (simp only: of_int_le_iff)
  then have "of_int ?J * ?u \<le> of_int (round_half_even (x / ?u)) * ?u"
    using u by (intro mult_right_mono) simp_all
  moreover have "to_double x = of_int (round_half_even (x / ?u)) * ?u"
    using x(1) Some by (rule to_double_pos)
  ultimately show ?thesis unfolding g by simp
qed

lemma to_double_le:
  assumes x: "0 < x" "x < 2 powi (E + 1)" and y: "x \<le> of_int j * 2 powi (E - 52)"
  shows "to_double x \<le> of_int j * 2 powi (E - 52)"
proof (cases "binade x")
  case None
  with x y show ?thesis by (simp add: to_double_def)
next
  case (Some e)
  from binade_bounds [OF Some] x have "(2::rat) powi e < 2 powi (E + 1)" by simp
  then have "e \<le> E"
    by (metis not_less power_int_increasing one_le_numeral zle_add1_eq_le leD linorder_le_less_linear)
  let ?u = "(2::rat) powi (e - 52)"
  let ?J = "j * 2 ^ nat (E - e)"
  have u: "0 < ?u" by simp
  have g: "of_int j * (2::rat) powi (E - 52) = of_int ?J * ?u"
    using \<open>e \<le> E\<close> by (rule grid_coarser)
  with y have "x \<le> of_int ?J * ?u" by simp
  then have "x / ?u \<le> of_int ?J" using u by (simp add: pos_divide_le_eq)
  then have "round_half_even (x / ?u) \<le> ?J" by (rule round_half_even_le)
  then have "rat_of_int (round_half_even (x / ?u)) \<le> rat_of_int ?J"
    by (simp only: of_int_le_iff)
  then have "of_int (round_half_even (x / ?u)) * ?u \<le> of_int ?J * ?u"
    using u by (intro mult_right_mono) simp_all
  moreover have "to_double x = of_int (round_half_even (x / ?u)) * ?u"
    using x(1) Some by (rule to_double_pos)
  ultimately show ?thesis unfolding g by simp
qed

lemma to_double_le_half:
  assumes x: "2 powi E \<le> x" "x < 2 powi (E + 1)" and E: "- 1022 \<le> E" "E \<le> 1023"
    and y: "x < (of_int j + 1 / 2) * 2 powi (E - 52)"
  shows "to_double x \<le> of_int j * 2 powi (E - 52)"
proof -
  let ?u = "(2::rat) powi (E - 52)"
  have u: "0 < ?u" by simp
  have b: "binade x = Some E" using x E by (rule binade_eqI)
  have "0 < (2::rat) powi E" by simp
  with x have pos: "0 < x" by linarith
  from y have "x / ?u < of_int j + 1 / 2" using u by (simp add: pos_divide_less_eq)
  then have "round_half_even (x / ?u) \<le> j" by (rule round_half_even_le_half)
  then have "rat_of_int (round_half_even (x / ?u)) \<le> rat_of_int j"
    by (simp only: of_int_le_iff)
  then have "of_int (round_half_even (x / ?u)) * ?u \<le> of_int j * ?u"
    using u by (intro mult_right_mono) simp_all
  then show ?thesis using pos b by (simp add: to_double_pos)
qed


lemma to_double_below:
  assumes x: "0 < x" "x < 2 powi (E + 1)" and E: "- 1021 \<le> E" "E \<le> 1023"
    and y: "x < (of_int j + 1 / 2) * 2 powi (E - 52)"
  shows "to_double x \<le> (of_int j + 1 / 2) * 2 powi (E - 52)"
proof (cases "2 powi E \<le> x")
  case True
  from True x(2) have "to_double x \<le> of_int j * 2 powi (E - 52)"
    using E y by (intro to_double_le_half) simp_all
  also have "\<dots> \<le> (of_int j + 1 / 2) * 2 powi (E - 52)"
    by (intro mult_right_mono) simp_all
  finally show ?thesis .
next
  case False
  have half: "(of_int j + 1 / 2) * (2::rat) powi (E - 52) = of_int (2 * j + 1) * 2 powi (E - 1 - 52)"
  proof -
    have "(2::rat) powi (E - 52) = 2 powi (1 + (E - 1 - 52))" by simp
    also have "\<dots> = 2 * 2 powi (E - 1 - 52)"
      by (subst power_int_add) simp_all
    finally show ?thesis by (simp add: algebra_simps)
  qed
  from False have "x < 2 powi (E - 1 + 1)" by simp
  moreover from y have "x \<le> of_int (2 * j + 1) * 2 powi (E - 1 - 52)"
    unfolding half by simp
  ultimately have "to_double x \<le> of_int (2 * j + 1) * 2 powi (E - 1 - 52)"
    using x(1) by (intro to_double_le)
  then show ?thesis unfolding half .
qed

lemma to_double_0 [simp]: "to_double 0 = 0"
  by (simp add: to_double_def)

subsection \<open>The duration\<close>

text \<open>
  Below a span of \<open>2 ^ 34\<close> seconds (17179869184 s, some 544 years) the two roundings do
  not reach the next minute: the stored duration is the exact quotient.
\<close>

lemma duration_minutes_exact:
  assumes le: "requested \<le> fulfilled"
    and span: "fulfilled - requested < 17179869184000000"
  shows "duration_minutes fulfilled requested = (fulfilled - requested) div 60000000"
proof -
  define D where "D = fulfilled - requested"
  define k where "k = D div 60000000"
  define x :: rat where "x = of_int D / 1000000"
  define y where "y = to_double x"
  define z where "z = y / 60"
  define m where "m = to_double z"
  have D: "0 \<le> D" "D < 17179869184000000" using le span by (simp_all add: D_def)
  have k0: "0 \<le> k" using D by (simp add: k_def pos_imp_zdiv_nonneg_iff)
  have kD: "60000000 * k \<le> D" "D \<le> 60000000 * k + 59999999"
    unfolding k_def by (simp_all add: algebra_simps)
  have kmax: "k \<le> 286331153"
  proof -
    from D(2) have "D \<le> 17179869183999999" by simp
    then have "D div 60000000 \<le> 17179869183999999 div 60000000"
      by (intro zdiv_mono1) simp_all
    then show ?thesis by (simp add: k_def)
  qed
  have xl: "60 * of_int k \<le> x"
  proof -
    from kD(1) have "rat_of_int (60000000 * k) \<le> rat_of_int D" by (simp only: of_int_le_iff)
    then show ?thesis by (simp add: x_def field_simps)
  qed
  have xu: "x \<le> 60 * (of_int k + 1) - 1 / 1000000"
  proof -
    from kD(2) have "rat_of_int D \<le> rat_of_int (60000000 * k + 59999999)"
      by (simp only: of_int_le_iff)
    then show ?thesis by (simp add: x_def field_simps)
  qed
  have x34: "x < 17179869184"
  proof -
    from D(2) have "rat_of_int D < rat_of_int 17179869184000000" by (simp only: of_int_less_iff)
    then show ?thesis by (simp add: x_def field_simps)
  qed
  have result: "duration_minutes fulfilled requested = (if m < 0 then - \<lfloor>- m\<rfloor> else \<lfloor>m\<rfloor>)"
    by (simp add: duration_minutes_def Let_def m_def z_def y_def x_def D_def)
  show ?thesis
  proof (cases "D = 0")
    case True
    then have "m = 0" "k = 0" by (simp_all add: m_def z_def y_def x_def k_def)
    with result show ?thesis by (simp add: k_def D_def)
  next
    case False
    with D have xpos: "0 < x" by (simp add: x_def)
    have yl: "60 * of_int k \<le> y"
    proof -
      have "of_int (31457280 * k) * 2 powi (33 - 52) \<le> to_double x"
        using xpos x34 xl by (intro to_double_ge) simp_all
      then show ?thesis by (simp add: y_def)
    qed
    have yu: "y \<le> 60 * (of_int k + 1) - 1 / 524288
        \<or> (y \<le> 60 * (of_int k + 1) - 1 / 1048576 \<and> y \<le> 8589934592)"
    proof (cases "8589934592 \<le> x")
      case True
      have "to_double x \<le> of_int (31457280 * (k + 1) - 1) * 2 powi (33 - 52)"
        using True x34 xu by (intro to_double_le_half) (simp_all add: field_simps)
      then show ?thesis by (simp add: y_def field_simps)
    next
      case False
      have "to_double x \<le> of_int (62914560 * (k + 1) - 1) * 2 powi (32 - 52)"
        using False xpos xu by (intro to_double_le) (simp_all add: field_simps)
      moreover have "to_double x \<le> of_int 9007199254740992 * 2 powi (32 - 52)"
        using False xpos by (intro to_double_le) simp_all
      ultimately show ?thesis by (simp add: y_def field_simps)
    qed
    show ?thesis
    proof (cases "y = 0")
      case True
      with yl k0 have "k = 0" by simp
      with True result show ?thesis by (simp add: m_def z_def k_def D_def)
    next
      case False
      have "0 \<le> 60 * rat_of_int k" using k0 by simp
      with yl False have ypos: "0 < y" by linarith
      then have zpos: "0 < z" by (simp add: z_def)
      have zl: "of_int k \<le> z" using yl by (simp add: z_def field_simps)
      have kr: "rat_of_int k \<le> 286331153"
      proof -
        from kmax have "rat_of_int k \<le> rat_of_int 286331153" by (simp only: of_int_le_iff)
        then show ?thesis by simp
      qed
      have ml: "of_int k \<le> m"
      proof -
        from yu have "y \<le> 60 * (of_int k + 1)" by auto
        then have "z \<le> of_int k + 1" by (simp add: z_def field_simps)
        with kr have "z < 536870912" by simp
        then have "of_int (16777216 * k) * 2 powi (28 - 52) \<le> to_double z"
          using zpos zl by (intro to_double_ge) simp_all
        then show ?thesis by (simp add: m_def)
      qed
      have mu: "m < of_int k + 1"
        using yu
      proof
        assume "y \<le> 60 * (of_int k + 1) - 1 / 524288"
        then have zu: "z \<le> of_int k + 1 - 1 / 31457280" by (simp add: z_def field_simps)
        with kr have "z < 536870912" by simp
        then have "to_double z \<le> (of_int (16777216 * (k + 1) - 1) + 1 / 2) * 2 powi (28 - 52)"
          using zpos zu by (intro to_double_below) (simp_all add: field_simps)
        then show ?thesis by (simp add: m_def field_simps)
      next
        assume a: "y \<le> 60 * (of_int k + 1) - 1 / 1048576 \<and> y \<le> 8589934592"
        then have zu: "z \<le> of_int k + 1 - 1 / 62914560" by (simp add: z_def field_simps)
        from a have "z < 268435456" by (simp add: z_def field_simps)
        then have "to_double z \<le> (of_int (33554432 * (k + 1) - 1) + 1 / 2) * 2 powi (27 - 52)"
          using zpos zu by (intro to_double_below) (simp_all add: field_simps)
        then show ?thesis by (simp add: m_def field_simps)
      qed
      have "0 \<le> rat_of_int k" using k0 by simp
      with ml have "0 \<le> m" by linarith
      moreover from ml mu have "\<lfloor>m\<rfloor> = k" by (simp add: floor_unique)
      ultimately show ?thesis using result by (simp add: k_def D_def)
    qed
  qed
qed






section \<open>The two loops in closed form\<close>

lemma log_container_eq:
  "log_container e ft c db =
     (if history_logged e c
      then (True, append_history (history_row e ft c (the (c_req_time c))) db)
      else (False, db))"
  by (auto simp: log_container_def log_request_to_history_def history_logged_def
      history_row_def Let_def split: option.splits)

lemma log_container_manual_eq:
  "log_container_manual e c db =
     (if history_insert_ok e (c_req_id c) (c_serial_no c)
      then (True, append_history (history_row e ''manual_cleanup'' c (req_time_dt e c)) db)
      else (False, db))"
  by (auto simp: log_container_manual_def log_request_to_history_def
      history_row_def Let_def split: option.splits)

lemma flag_containers_iff:
  "c \<in> set (flag_containers e prod_locations rs) \<longleftrightarrow>
     (\<exists>r current. r \<in> set rs \<and> request_type r \<noteq> Some ''PUT_BACK''
        \<and> check_container_current_location e (serial_no r) = Some current
        \<and> current \<noteq> [] \<and> current \<in> set prod_locations \<and> c = flagged r current)"
  by (induction rs) (auto split: option.splits)

lemma flag_containers_manual_iff:
  "c \<in> set (flag_containers_manual e prod_locations rs) \<longleftrightarrow>
     (\<exists>r current. r \<in> set rs \<and> request_type r \<noteq> Some ''PUT_BACK''
        \<and> check_container_current_location e (serial_no r) = Some current
        \<and> current \<noteq> [] \<and> current \<in> set prod_locations \<and> c = flagged_manual r current)"
  by (induction rs) (auto split: option.splits)

lemma put_back_never_flagged:
  "c \<in> set (flag_containers e prod_locations rs) \<Longrightarrow> c_request_type c \<noteq> Some ''PUT_BACK''"
  by (auto simp: flag_containers_iff flagged_def)

text \<open>One step of either removal loop, by the outcome of the history write and the DELETE.\<close>

lemma remove_containers_step:
  "remove_containers e (c # cs) db n =
     (if history_logged e c
      then if delete_executes e c
           then remove_containers e cs
                  (delete_by_req_id (c_req_id c)
                     (append_history (history_row e ''auto_cleanup'' c (the (c_req_time c))) db))
                  (Suc n)
           else remove_containers e cs
                  (append_history (history_row e ''auto_cleanup'' c (the (c_req_time c))) db) n
      else remove_containers e cs db n)"
  by (simp add: log_container_eq delete_executes_def split: option.splits)

lemma remove_containers_manual_step:
  "remove_containers_manual e (c # cs) db errs =
     (if history_insert_ok e (c_req_id c) (c_serial_no c)
      then if delete_executes e c
           then remove_containers_manual e cs
                  (delete_by_req_id (c_req_id c)
                     (append_history (history_row e ''manual_cleanup'' c (req_time_dt e c)) db))
                  errs
           else remove_containers_manual e cs
                  (append_history (history_row e ''manual_cleanup'' c (req_time_dt e c)) db)
                  (errs @ [''Error removing container '' @ c_serial_no c @ '': '' @
                           the (delete_error e (Delete_by_req_id (c_req_id c)))])
      else remove_containers_manual e cs db
             (errs @ [''Failed to log container '' @ c_serial_no c @
                      '' to history, skipping deletion'']))"
  by (simp add: log_container_manual_eq delete_executes_def split: option.splits)

lemma remove_containers_requests:
  "requests (fst (remove_containers e cs db n)) =
     filter (\<lambda>r. req_id r \<notin> c_req_id `
        {c \<in> set cs. history_logged e c \<and> delete_executes e c}) (requests db)"
proof (induction cs arbitrary: db n)
  case Nil
  then show ?case by simp
next
  case (Cons c cs)
  let ?P = "\<lambda>c. history_logged e c \<and> delete_executes e c"
  show ?case
  proof (cases "?P c")
    case True
    have "{x \<in> set (c # cs). ?P x} = insert c {x \<in> set cs. ?P x}"
      using True by auto
    moreover have "remove_containers e (c # cs) db n =
        remove_containers e cs
          (delete_by_req_id (c_req_id c)
             (append_history (history_row e ''auto_cleanup'' c (the (c_req_time c))) db)) (Suc n)"
      using True by (simp only: remove_containers_step if_True)
    ultimately show ?thesis
      by (simp add: Cons.IH delete_by_req_id_def append_history_def conj_commute
          del: remove_containers.simps)
  next
    case False
    have "{x \<in> set (c # cs). ?P x} = {x \<in> set cs. ?P x}"
      using False by auto
    moreover have "requests (fst (remove_containers e (c # cs) db n)) =
        filter (\<lambda>r. req_id r \<notin> c_req_id ` {x \<in> set cs. ?P x}) (requests db)"
      using False
      by (auto simp: remove_containers_step Cons.IH append_history_def
          simp del: remove_containers.simps)
    ultimately show ?thesis by simp
  qed
qed

lemma remove_containers_history:
  "requests_history (fst (remove_containers e cs db n)) =
     requests_history db @
       map (\<lambda>c. history_row e ''auto_cleanup'' c (the (c_req_time c))) (filter (history_logged e) cs)"
proof (induction cs arbitrary: db n)
  case Nil
  then show ?case by simp
next
  case (Cons c cs)
  show ?case
    by (simp add: remove_containers_step Cons.IH delete_by_req_id_def append_history_def
        del: remove_containers.simps)
qed

lemma paired_Insert: "paired ops \<Longrightarrow> paired (Insert_history h # ops)"
  by (cases ops rule: paired.cases) simp_all

lemma remove_containers_journal:
  "\<exists>ops. journal (fst (remove_containers e cs db n)) = journal db @ ops \<and> paired ops"
proof (induction cs arbitrary: db n)
  case Nil
  then show ?case by simp
next
  case (Cons c cs)
  let ?h = "history_row e ''auto_cleanup'' c (the (c_req_time c))"
  consider (deleted) "history_logged e c" "delete_executes e c"
    | (kept) "history_logged e c" "\<not> delete_executes e c"
    | (unlogged) "\<not> history_logged e c"
    by blast
  then show ?case
  proof cases
    case deleted
    let ?db = "delete_by_req_id (c_req_id c) (append_history ?h db)"
    from Cons.IH [of ?db "Suc n"] obtain ops where
      ops: "journal (fst (remove_containers e cs ?db (Suc n))) = journal ?db @ ops" "paired ops"
      by blast
    have "journal ?db = journal db @ [Insert_history ?h, Delete_by_req_id (c_req_id c)]"
      by (simp add: delete_by_req_id_def append_history_def)
    moreover have "paired ([Insert_history ?h, Delete_by_req_id (c_req_id c)] @ ops)"
      using ops(2) by (simp add: history_row_def)
    ultimately show ?thesis
      using deleted ops(1) by (simp add: remove_containers_step del: remove_containers.simps)
  next
    case kept
    let ?db = "append_history ?h db"
    from Cons.IH [of ?db n] obtain ops where
      ops: "journal (fst (remove_containers e cs ?db n)) = journal ?db @ ops" "paired ops"
      by blast
    have "journal ?db = journal db @ [Insert_history ?h]"
      by (simp add: append_history_def)
    moreover have "paired ([Insert_history ?h] @ ops)"
      using ops(2) by (simp add: paired_Insert)
    ultimately show ?thesis
      using kept ops(1) by (simp add: remove_containers_step del: remove_containers.simps)
  next
    case unlogged
    then show ?thesis
      using Cons.IH [of db n] by (simp add: remove_containers_step del: remove_containers.simps)
  qed
qed

lemma remove_containers_count:
  "snd (remove_containers e cs db n) =
     n + length (filter (\<lambda>c. history_logged e c \<and> delete_executes e c) cs)"
proof (induction cs arbitrary: db n)
  case Nil
  then show ?case by simp
next
  case (Cons c cs)
  show ?case by (simp add: remove_containers_step Cons.IH del: remove_containers.simps)
qed

lemma remove_containers_manual_requests:
  "requests (fst (remove_containers_manual e cs db errs)) =
     filter (\<lambda>r. req_id r \<notin> c_req_id `
        {c \<in> set cs. history_insert_ok e (c_req_id c) (c_serial_no c) \<and> delete_executes e c})
       (requests db)"
proof (induction cs arbitrary: db errs)
  case Nil
  then show ?case by simp
next
  case (Cons c cs)
  let ?P = "\<lambda>c. history_insert_ok e (c_req_id c) (c_serial_no c) \<and> delete_executes e c"
  show ?case
  proof (cases "?P c")
    case True
    have "{x \<in> set (c # cs). ?P x} = insert c {x \<in> set cs. ?P x}"
      using True by auto
    moreover have "remove_containers_manual e (c # cs) db errs =
        remove_containers_manual e cs
          (delete_by_req_id (c_req_id c)
             (append_history (history_row e ''manual_cleanup'' c (req_time_dt e c)) db)) errs"
      using True by (simp only: remove_containers_manual_step if_True)
    ultimately show ?thesis
      by (simp add: Cons.IH delete_by_req_id_def append_history_def conj_commute
          del: remove_containers_manual.simps)
  next
    case False
    have "{x \<in> set (c # cs). ?P x} = {x \<in> set cs. ?P x}"
      using False by auto
    moreover have "requests (fst (remove_containers_manual e (c # cs) db errs)) =
        filter (\<lambda>r. req_id r \<notin> c_req_id ` {x \<in> set cs. ?P x}) (requests db)"
      using False
      by (auto simp: remove_containers_manual_step Cons.IH append_history_def
          simp del: remove_containers_manual.simps)
    ultimately show ?thesis by simp
  qed
qed

lemma remove_containers_manual_history:
  "requests_history (fst (remove_containers_manual e cs db errs)) =
     requests_history db @
       map (\<lambda>c. history_row e ''manual_cleanup'' c (req_time_dt e c))
         (filter (\<lambda>c. history_insert_ok e (c_req_id c) (c_serial_no c)) cs)"
proof (induction cs arbitrary: db errs)
  case Nil
  then show ?case by simp
next
  case (Cons c cs)
  show ?case
    by (simp add: remove_containers_manual_step Cons.IH delete_by_req_id_def append_history_def
        del: remove_containers_manual.simps)
qed

lemma remove_containers_manual_journal:
  "\<exists>ops. journal (fst (remove_containers_manual e cs db errs)) = journal db @ ops \<and> paired ops"
proof (induction cs arbitrary: db errs)
  case Nil
  then show ?case by simp
next
  case (Cons c cs)
  let ?h = "history_row e ''manual_cleanup'' c (req_time_dt e c)"
  consider (deleted) "history_insert_ok e (c_req_id c) (c_serial_no c)" "delete_executes e c"
    | (kept) "history_insert_ok e (c_req_id c) (c_serial_no c)" "\<not> delete_executes e c"
    | (unlogged) "\<not> history_insert_ok e (c_req_id c) (c_serial_no c)"
    by blast
  then show ?case
  proof cases
    case deleted
    let ?db = "delete_by_req_id (c_req_id c) (append_history ?h db)"
    from Cons.IH [of ?db errs] obtain ops where
      ops: "journal (fst (remove_containers_manual e cs ?db errs)) = journal ?db @ ops" "paired ops"
      by blast
    have "journal ?db = journal db @ [Insert_history ?h, Delete_by_req_id (c_req_id c)]"
      by (simp add: delete_by_req_id_def append_history_def)
    moreover have "paired ([Insert_history ?h, Delete_by_req_id (c_req_id c)] @ ops)"
      using ops(2) by (simp add: history_row_def)
    ultimately show ?thesis
      using deleted ops(1)
      by (simp add: remove_containers_manual_step del: remove_containers_manual.simps)
  next
    case kept
    let ?db = "append_history ?h db"
    let ?errs = "errs @ [''Error removing container '' @ c_serial_no c @ '': '' @
                           the (delete_error e (Delete_by_req_id (c_req_id c)))]"
    from Cons.IH [of ?db ?errs] obtain ops where
      ops: "journal (fst (remove_containers_manual e cs ?db ?errs)) = journal ?db @ ops" "paired ops"
      by blast
    have "journal ?db = journal db @ [Insert_history ?h]"
      by (simp add: append_history_def)
    moreover have "paired ([Insert_history ?h] @ ops)"
      using ops(2) by (simp add: paired_Insert)
    ultimately show ?thesis
      using kept ops(1)
      by (simp add: remove_containers_manual_step del: remove_containers_manual.simps)
  next
    case unlogged
    then show ?thesis
      using Cons.IH [of db]
      by (simp add: remove_containers_manual_step del: remove_containers_manual.simps)
  qed
qed

text \<open>What either pass leaves in the database.\<close>

lemma automated_effect:
  "fst (automated_container_cleanup e db) = db
   \<or> (\<exists>prod_locations.
        fst (automated_container_cleanup e db) =
          fst (remove_containers e (flag_containers e prod_locations (select_requests db)) db 0))
   \<or> (\<exists>prod_locations.
        fst (automated_container_cleanup e db) =
          rollback db
            (fst (remove_containers e (flag_containers e prod_locations (select_requests db)) db 0)))"
  by (auto simp: automated_container_cleanup_def Let_def split: sum.splits option.splits)

lemma manual_effect:
  "fst (manual_container_cleanup e db) = db
   \<or> (\<exists>prod_locations.
        fst (manual_container_cleanup e db) =
          fst (remove_containers_manual e
                 (flag_containers_manual e prod_locations (select_requests db)) db []))
   \<or> (\<exists>prod_locations.
        fst (manual_container_cleanup e db) =
          rollback db
            (fst (remove_containers_manual e
                    (flag_containers_manual e prod_locations (select_requests db)) db [])))"
  by (auto simp: manual_container_cleanup_def Let_def split: sum.splits option.splits prod.splits)
     (metis fst_conv)+

lemma set_select_requests [simp]: "set (select_requests db) = set (requests db)"
  by (simp add: select_requests_def)

lemma length_select_requests [simp]: "length (select_requests db) = length (requests db)"
  by (simp add: select_requests_def)

lemma same_req_id_same_row:
  assumes "distinct (map req_id rs)" "r \<in> set rs" "r' \<in> set rs" "req_id r' = req_id r"
  shows "r' = r"
  using assms by (meson distinct_map inj_on_eq_iff)

lemma new_history_append [simp]:
  "requests_history db' = requests_history db @ hs \<Longrightarrow> new_history db db' = hs"
  by (simp add: new_history_def)

lemma new_journal_append [simp]:
  "journal db' = journal db @ ops \<Longrightarrow> new_journal db db' = ops"
  by (simp add: new_journal_def)

lemma new_history_same [simp]: "new_history db db = []"
  by (simp add: new_history_def)

lemma new_journal_same [simp]: "new_journal db db = []"
  by (simp add: new_journal_def)

lemma audited_rollback:
  "paired (new_journal db db') \<Longrightarrow> audited db (rollback db db')"
  by (simp add: audited_def rollback_def new_journal_def)

section \<open>History before deletion\<close>

lemma automated_audited:
  fixes e :: env and db :: database
  assumes "distinct (map req_id (requests db))"
  shows "audited db (fst (automated_container_cleanup e db))"
proof -
  have run: "audited db (fst (remove_containers e
      (flag_containers e prod_locations (select_requests db)) db 0))"
    (is "audited db ?db'") for prod_locations
  proof -
    let ?cs = "flag_containers e prod_locations (select_requests db)"
    from remove_containers_journal [of e ?cs db 0] obtain ops where
      "journal ?db' = journal db @ ops" "paired ops"
      by blast
    then have j: "paired (new_journal db ?db')" by simp
    have hist: "new_history db ?db' =
        map (\<lambda>c. history_row e ''auto_cleanup'' c (the (c_req_time c))) (filter (history_logged e) ?cs)"
      by (simp add: remove_containers_history)
    have "\<exists>h \<in> set (new_history db ?db'). h_req_id h = req_id r \<and> h_serial_no h = serial_no r"
      if r: "r \<in> set (requests db)" and gone: "r \<notin> set (requests ?db')" for r
    proof -
      from r gone have "req_id r \<in> c_req_id `
          {c \<in> set ?cs. history_logged e c \<and> delete_executes e c}"
        by (simp add: remove_containers_requests)
      then obtain c where c: "c \<in> set ?cs" "history_logged e c" "c_req_id c = req_id r"
        by auto
      from c(1) obtain r' current where r': "r' \<in> set (requests db)" "c = flagged r' current"
        by (auto simp: flag_containers_iff)
      from c(3) r'(2) have "req_id r' = req_id r" by (simp add: flagged_def)
      with assms(1) r r'(1) have "r' = r" by (rule same_req_id_same_row)
      with r'(2) have "c_serial_no c = serial_no r" by (simp add: flagged_def)
      with c show ?thesis
        unfolding hist by (auto simp: history_row_def intro!: bexI [of _ c])
    qed
    with j show ?thesis by (simp add: audited_def)
  qed
  from automated_effect [of e db] show ?thesis
  proof (elim disjE exE)
    assume "fst (automated_container_cleanup e db) = db"
    then show ?thesis by (simp add: audited_def)
  next
    fix prod_locations
    assume "fst (automated_container_cleanup e db) =
      fst (remove_containers e (flag_containers e prod_locations (select_requests db)) db 0)"
    with run show ?thesis by simp
  next
    fix prod_locations
    assume "fst (automated_container_cleanup e db) = rollback db
      (fst (remove_containers e (flag_containers e prod_locations (select_requests db)) db 0))"
    moreover from run [of prod_locations] have "paired (new_journal db
      (fst (remove_containers e (flag_containers e prod_locations (select_requests db)) db 0)))"
      by (simp add: audited_def)
    ultimately show ?thesis by (simp add: audited_rollback)
  qed
qed

lemma manual_audited:
  fixes e :: env and db :: database
  assumes "distinct (map req_id (requests db))"
  shows "audited db (fst (manual_container_cleanup e db))"
proof -
  have run: "audited db (fst (remove_containers_manual e
      (flag_containers_manual e prod_locations (select_requests db)) db []))"
    (is "audited db ?db'") for prod_locations
  proof -
    let ?cs = "flag_containers_manual e prod_locations (select_requests db)"
    let ?ok = "\<lambda>c. history_insert_ok e (c_req_id c) (c_serial_no c)"
    from remove_containers_manual_journal [of e ?cs db "[]"] obtain ops where
      "journal ?db' = journal db @ ops" "paired ops"
      by blast
    then have j: "paired (new_journal db ?db')" by simp
    have hist: "new_history db ?db' =
        map (\<lambda>c. history_row e ''manual_cleanup'' c (req_time_dt e c)) (filter ?ok ?cs)"
      by (simp add: remove_containers_manual_history)
    have "\<exists>h \<in> set (new_history db ?db'). h_req_id h = req_id r \<and> h_serial_no h = serial_no r"
      if r: "r \<in> set (requests db)" and gone: "r \<notin> set (requests ?db')" for r
    proof -
      from r gone have "req_id r \<in> c_req_id ` {c \<in> set ?cs. ?ok c \<and> delete_executes e c}"
        by (simp add: remove_containers_manual_requests)
      then obtain c where c: "c \<in> set ?cs" "?ok c" "c_req_id c = req_id r"
        by auto
      from c(1) obtain r' current where
        r': "r' \<in> set (requests db)" "c = flagged_manual r' current"
        by (auto simp: flag_containers_manual_iff)
      from c(3) r'(2) have "req_id r' = req_id r" by (simp add: flagged_manual_def flagged_def)
      with assms(1) r r'(1) have "r' = r" by (rule same_req_id_same_row)
      with r'(2) have "c_serial_no c = serial_no r" by (simp add: flagged_manual_def flagged_def)
      with c show ?thesis
        unfolding hist by (auto simp: history_row_def intro!: bexI [of _ c])
    qed
    with j show ?thesis by (simp add: audited_def)
  qed
  from manual_effect [of e db] show ?thesis
  proof (elim disjE exE)
    assume "fst (manual_container_cleanup e db) = db"
    then show ?thesis by (simp add: audited_def)
  next
    fix prod_locations
    assume "fst (manual_container_cleanup e db) = fst (remove_containers_manual e
      (flag_containers_manual e prod_locations (select_requests db)) db [])"
    with run show ?thesis by simp
  next
    fix prod_locations
    assume "fst (manual_container_cleanup e db) = rollback db (fst (remove_containers_manual e
      (flag_containers_manual e prod_locations (select_requests db)) db []))"
    moreover from run [of prod_locations] have "paired (new_journal db
      (fst (remove_containers_manual e
        (flag_containers_manual e prod_locations (select_requests db)) db [])))"
      by (simp add: audited_def)
    ultimately show ?thesis by (simp add: audited_rollback)
  qed
qed

lemma delete_request_journal:
  fixes e :: env and db :: database and serial :: string
  defines "db' \<equiv> fst (delete_request e serial db)"
  shows "db' = db
     \<or> (new_journal db db' = [Delete_by_serial_no serial] \<and> new_history db db' = [])
     \<or> (\<exists>h. new_journal db db' = [Insert_history h, Delete_by_serial_no serial]
             \<and> new_history db db' = [h] \<and> h_serial_no h = serial
             \<and> h_req_id h \<in> req_id ` set (requests db))
     \<or> (\<exists>h. new_journal db db' = [Insert_history h] \<and> new_history db db' = [h]
             \<and> h_serial_no h = serial \<and> h_req_id h \<in> req_id ` set (requests db)
             \<and> requests db' = requests db)"
proof (cases "db_error e")
  case (Some msg)
  then show ?thesis by (simp add: db'_def delete_request_def)
next
  case None
  show ?thesis
  proof (cases "find (\<lambda>r. serial_no r = serial) (requests db)")
    case nf: None
    with None show ?thesis by (simp add: db'_def delete_request_def)
  next
    case (Some r)
    then have r: "r \<in> set (requests db)" "serial_no r = serial"
      by (auto simp: find_Some_iff)
    show ?thesis
    proof (cases "req_time r \<noteq> None \<and> history_insert_ok e (req_id r) (serial_no r)")
      case True
      then obtain t where t: "req_time r = Some t" by auto
      with True None Some r show ?thesis
        by (auto simp: db'_def delete_request_def log_request_to_history_def Let_def
            delete_by_serial_no_def append_history_def new_journal_def new_history_def
            rollback_def split: option.splits)
    next
      case False
      with None Some r show ?thesis
        by (auto simp: db'_def delete_request_def log_request_to_history_def Let_def
            delete_by_serial_no_def new_journal_def new_history_def rollback_def
            split: option.splits)
    qed
  qed
qed

text \<open>
  Claim C1, as amended. From a table whose request ids are distinct, the scheduled pass
  and the manual cleanup are audited: each DELETE follows directly the INSERT of a history
  row with the same request id, and every row removed has a history row of the same call
  with its request id and serial number. \<^verbatim>\<open>delete_request\<close> either changes nothing, or,
  when the history write fails, deletes without a history row, or writes the history row
  of the serial number and then deletes, or, when the DELETE or the commit fails after
  the history write, leaves the history row and \<^verbatim>\<open>REQUESTS\<close> as it was.
\<close>

theorem deletions_audited:
  fixes e :: env and db :: database
  assumes "distinct (map req_id (requests db))"
  shows "audited db (fst (automated_container_cleanup e db))
     \<and> audited db (fst (manual_container_cleanup e db))
     \<and> (fst (delete_request e serial db) = db
        \<or> (new_journal db (fst (delete_request e serial db)) = [Delete_by_serial_no serial]
            \<and> new_history db (fst (delete_request e serial db)) = [])
        \<or> (\<exists>h. new_journal db (fst (delete_request e serial db))
                   = [Insert_history h, Delete_by_serial_no serial]
             \<and> new_history db (fst (delete_request e serial db)) = [h]
             \<and> h_serial_no h = serial \<and> h_req_id h \<in> req_id ` set (requests db))
        \<or> (\<exists>h. new_journal db (fst (delete_request e serial db)) = [Insert_history h]
             \<and> new_history db (fst (delete_request e serial db)) = [h]
             \<and> h_serial_no h = serial \<and> h_req_id h \<in> req_id ` set (requests db)
             \<and> requests (fst (delete_request e serial db)) = requests db))"
  using automated_audited [OF assms, of e] manual_audited [OF assms, of e]
    delete_request_journal [of e serial db]
  by simp

text \<open>
  Two requests with ids 0 and 1, the first located in production: the ids are distinct,
  the pass is audited, the second request stays and the history holds the first.
\<close>

theorem deletions_audited_witness:
  "distinct (map req_id (requests
      (example_db [example_request 0 ''S1001'' ''PICK_UP'', example_request 1 ''S1002'' ''PICK_UP''])))
   \<and> audited
       (example_db [example_request 0 ''S1001'' ''PICK_UP'', example_request 1 ''S1002'' ''PICK_UP''])
       (fst (automated_container_cleanup
              (example_env (erp_at [(''S1001'', ''PROD-A'')]) (\<lambda>_ _. True))
              (example_db [example_request 0 ''S1001'' ''PICK_UP'',
                           example_request 1 ''S1002'' ''PICK_UP''])))
   \<and> map serial_no (requests (fst (automated_container_cleanup
              (example_env (erp_at [(''S1001'', ''PROD-A'')]) (\<lambda>_ _. True))
              (example_db [example_request 0 ''S1001'' ''PICK_UP'',
                           example_request 1 ''S1002'' ''PICK_UP''])))) = [''S1002'']
   \<and> map h_serial_no (requests_history (fst (automated_container_cleanup
              (example_env (erp_at [(''S1001'', ''PROD-A'')]) (\<lambda>_ _. True))
              (example_db [example_request 0 ''S1001'' ''PICK_UP'',
                           example_request 1 ''S1002'' ''PICK_UP''])))) = [''S1001'']"
proof -
  let ?db = "example_db [example_request 0 ''S1001'' ''PICK_UP'', example_request 1 ''S1002'' ''PICK_UP'']"
  let ?e = "example_env (erp_at [(''S1001'', ''PROD-A'')]) (\<lambda>_ _. True)"
  have d: "distinct (map req_id (requests ?db))"
    by (simp add: example_defs)
  from deletions_audited [OF d, of ?e "''S1002''"]
  have "audited ?db (fst (automated_container_cleanup ?e ?db))" by blast
  moreover have "map serial_no (requests (fst (automated_container_cleanup ?e ?db))) = [''S1002'']"
    by (simp add: example_defs run_defs duration_minutes_exact)
  moreover have "map h_serial_no (requests_history (fst (automated_container_cleanup ?e ?db))) = [''S1001'']"
    by (simp add: example_defs run_defs duration_minutes_exact)
  ultimately show ?thesis using d by blast
qed

text \<open>
  Claim C1 as stated fails for \<^verbatim>\<open>delete_request\<close>: with the history INSERT failing, the
  request is deleted and the history stays empty.
\<close>

theorem delete_request_unaudited:
  "delete_request (example_env (erp_at []) (\<lambda>_ _. False)) ''S1001''
     (example_db [example_request 0 ''S1001'' ''PICK_UP''])
   = (\<lparr>requests = [], requests_history = [], journal = [Delete_by_serial_no ''S1001'']\<rparr>,
      Json_response ''Request deleted successfully'')"
  by (simp add: example_defs run_defs)

section \<open>The safety gate\<close>

text \<open>
  Claim C2, as amended. When the production locations were fetched, the table was read
  and more than 10 containers are flagged, the scheduled pass leaves the database as it
  was, deletes nothing, and sends no notification.
\<close>

theorem safety_gate_aborts_silently:
  assumes "get_prod_locations (prod_reply e) = Inr prod_locations"
    and "db_error e = None"
    and "length (flag_containers e prod_locations (select_requests db)) > 10"
  shows "automated_container_cleanup e db = (db, [])"
  using assms by (auto simp: automated_container_cleanup_def Let_def)

text \<open>
  Eleven requests, all located in production.
\<close>

theorem safety_gate_aborts_silently_witness:
  "get_prod_locations (prod_reply (example_env (\<lambda>_. Erp_records [Some ''PROD-B'']) (\<lambda>_ _. True)))
     = Inr [''PROD-A'', ''PROD-B'']
   \<and> db_error (example_env (\<lambda>_. Erp_records [Some ''PROD-B'']) (\<lambda>_ _. True)) = None
   \<and> length (flag_containers (example_env (\<lambda>_. Erp_records [Some ''PROD-B'']) (\<lambda>_ _. True))
        [''PROD-A'', ''PROD-B''] (select_requests (example_db eleven_requests))) = 11
   \<and> automated_container_cleanup (example_env (\<lambda>_. Erp_records [Some ''PROD-B'']) (\<lambda>_ _. True))
        (example_db eleven_requests) = (example_db eleven_requests, [])"
proof -
  let ?e = "example_env (\<lambda>_. Erp_records [Some ''PROD-B'']) (\<lambda>_ _. True)"
  have p: "get_prod_locations (prod_reply ?e) = Inr [''PROD-A'', ''PROD-B'']"
    by (simp add: example_defs)
  have d: "db_error ?e = None"
    by (simp add: example_defs)
  have n: "length (flag_containers ?e [''PROD-A'', ''PROD-B''] (select_requests (example_db eleven_requests))) = 11"
    by (simp add: example_defs run_defs)
  then have g: "length (flag_containers ?e [''PROD-A'', ''PROD-B''] (select_requests (example_db eleven_requests))) > 10"
    by simp
  from safety_gate_aborts_silently [OF p d g] p d n show ?thesis by blast
qed

text \<open>
  Claim C2 as stated fails in its last part: with eleven containers flagged the pass
  sends nothing, so no event carries the count.
\<close>

theorem safety_abort_sends_no_notification:
  "length (flag_containers (example_env (\<lambda>_. Erp_records [Some ''PROD-A'']) (\<lambda>_ _. True))
        [''PROD-A'', ''PROD-B''] (select_requests (example_db eleven_requests))) = 11
   \<and> snd (automated_container_cleanup (example_env (\<lambda>_. Erp_records [Some ''PROD-A'']) (\<lambda>_ _. True))
        (example_db eleven_requests)) = []"
  by (simp add: example_defs run_defs)

section \<open>The production-location fetch\<close>

text \<open>The replies for which \<^verbatim>\<open>get_prod_locations\<close> returns the empty list.\<close>

lemma get_prod_locations_empty_iff:
  "get_prod_locations reply = Inr [] \<longleftrightarrow>
     reply = Http_timeout \<or> reply = Http_request_error \<or>
     (\<exists>code body. reply = Http_response code body \<and>
        (code \<noteq> 200 \<or> body = None \<or> body = Some No_tables \<or> body = Some Unreadable_tables
         \<or> body = Some (Location_column [])))"
  by (cases reply) (auto split: option.splits tables.splits)

text \<open>
  Claim C4, as amended. When \<^verbatim>\<open>get_prod_locations\<close> returns the empty list, which is
  what it returns for a timeout, a transport error, a status other than 200, a body
  that is not JSON and a body without readable tables, the scheduled pass leaves the
  database as it was and sends no notification. When an exception leaves
  \<^verbatim>\<open>get_prod_locations\<close>, the pass leaves the database as it was and sends
  \<^verbatim>\<open>auto_cleanup_error\<close> with the exception's text.
\<close>

theorem production_fetch_abort:
  "(get_prod_locations (prod_reply e) = Inr [] \<longrightarrow>
      automated_container_cleanup e db = (db, []))
   \<and> (\<forall>msg. get_prod_locations (prod_reply e) = Inl msg \<longrightarrow>
      automated_container_cleanup e db = (db, [Auto_cleanup_error msg (now e)]))"
  by (simp add: automated_container_cleanup_def)

text \<open>
  An empty location column, and an exception that the client does not handle.
\<close>

theorem production_fetch_abort_witness:
  "get_prod_locations (prod_reply ((example_env (erp_at []) (\<lambda>_ _. True))
       \<lparr>prod_reply := Http_response 200 (Some (Location_column []))\<rparr>)) = Inr []
   \<and> automated_container_cleanup ((example_env (erp_at []) (\<lambda>_ _. True))
       \<lparr>prod_reply := Http_response 200 (Some (Location_column []))\<rparr>)
       (example_db [example_request 0 ''S1001'' ''PICK_UP''])
     = (example_db [example_request 0 ''S1001'' ''PICK_UP''], [])
   \<and> get_prod_locations (prod_reply ((example_env (erp_at []) (\<lambda>_ _. True))
       \<lparr>prod_reply := Http_other_exception ''boom''\<rparr>)) = Inl ''boom''
   \<and> automated_container_cleanup ((example_env (erp_at []) (\<lambda>_ _. True))
       \<lparr>prod_reply := Http_other_exception ''boom''\<rparr>)
       (example_db [example_request 0 ''S1001'' ''PICK_UP''])
     = (example_db [example_request 0 ''S1001'' ''PICK_UP''],
        [Auto_cleanup_error ''boom'' 7325000000])"
proof -
  let ?e = "example_env (erp_at []) (\<lambda>_ _. True)"
  let ?e1 = "?e\<lparr>prod_reply := Http_response 200 (Some (Location_column []))\<rparr>"
  let ?e2 = "?e\<lparr>prod_reply := Http_other_exception ''boom''\<rparr>"
  let ?db = "example_db [example_request 0 ''S1001'' ''PICK_UP'']"
  have 1: "get_prod_locations (prod_reply ?e1) = Inr []" by simp
  have 2: "get_prod_locations (prod_reply ?e2) = Inl ''boom''" by simp
  have n: "now ?e2 = 7325000000" by (simp add: example_defs)
  from production_fetch_abort [of ?e1 ?db] 1
  have a: "automated_container_cleanup ?e1 ?db = (?db, [])" by blast
  from production_fetch_abort [of ?e2 ?db] 2
  have "automated_container_cleanup ?e2 ?db = (?db, [Auto_cleanup_error ''boom'' (now ?e2)])"
    by blast
  with n have b: "automated_container_cleanup ?e2 ?db = (?db, [Auto_cleanup_error ''boom'' 7325000000])"
    by simp
  from 1 a 2 b show ?thesis by blast
qed

text \<open>
  Claim C4 as stated fails in its last part: after a timeout of the fetch the pass sends
  no notification.
\<close>

theorem fetch_timeout_sends_no_notification:
  "automated_container_cleanup ((example_env (erp_at [(''S1001'', ''PROD-A'')]) (\<lambda>_ _. True))
       \<lparr>prod_reply := Http_timeout\<rparr>)
     (example_db [example_request 0 ''S1001'' ''PICK_UP''])
   = (example_db [example_request 0 ''S1001'' ''PICK_UP''], [])"
  by (simp add: automated_container_cleanup_def)

section \<open>Running the pass twice\<close>

lemma flag_containers_clock [simp]:
  "flag_containers (e\<lparr>utcnow := t, now := t'\<rparr>) prod_locations rs = flag_containers e prod_locations rs"
  by (induction rs) (auto simp: check_container_current_location_def split: option.splits)

lemma history_logged_clock [simp]:
  "history_logged (e\<lparr>utcnow := t, now := t'\<rparr>) c = history_logged e c"
  by (simp add: history_logged_def)

lemma delete_executes_clock [simp]:
  "delete_executes (e\<lparr>utcnow := t, now := t'\<rparr>) c = delete_executes e c"
  by (simp add: delete_executes_def)

text \<open>
  A pass that starts from what a pass in the same environment left finds no request that
  it can both log and delete.
\<close>

lemma second_pass_removes_none:
  fixes e :: env and db :: database and prod_locations :: "string list"
  defines "cs1 \<equiv> flag_containers e prod_locations (select_requests db)"
  defines "db1 \<equiv> fst (remove_containers e cs1 db 0)"
  assumes same: "requests db2 = requests db1"
  shows "requests (fst (remove_containers e
            (flag_containers e prod_locations (select_requests db2)) db2 n)) = requests db2"
proof -
  let ?cs2 = "flag_containers e prod_locations (select_requests db2)"
  have none: "\<not> (history_logged e c \<and> delete_executes e c)" if c: "c \<in> set ?cs2" for c
  proof
    assume ok: "history_logged e c \<and> delete_executes e c"
    from c obtain r current where r: "r \<in> set (requests db2)"
      "request_type r \<noteq> Some ''PUT_BACK''"
      "check_container_current_location e (serial_no r) = Some current"
      "current \<noteq> []" "current \<in> set prod_locations" "c = flagged r current"
      by (auto simp: flag_containers_iff)
    from r(1) same have kept: "r \<in> set (requests db)"
      "req_id r \<notin> c_req_id ` {c \<in> set cs1. history_logged e c \<and> delete_executes e c}"
      by (simp_all add: db1_def remove_containers_requests)
    from kept(1) r have "c \<in> set cs1"
      by (auto simp: cs1_def flag_containers_iff)
    with ok have "c_req_id c \<in> c_req_id ` {c \<in> set cs1. history_logged e c \<and> delete_executes e c}"
      by blast
    moreover have "c_req_id c = req_id r" using r(6) by (simp add: flagged_def)
    ultimately show False using kept(2) by simp
  qed
  then have "{c \<in> set ?cs2. history_logged e c \<and> delete_executes e c} = {}"
    by blast
  then have "filter (\<lambda>r. req_id r \<notin> c_req_id `
      {c \<in> set ?cs2. history_logged e c \<and> delete_executes e c}) (requests db2) = requests db2"
    by (simp only: image_empty empty_iff not_False_eq_True) simp
  then show ?thesis
    by (simp only: remove_containers_requests)
qed

lemma automated_requests:
  "requests (fst (automated_container_cleanup e db)) = requests db
   \<or> (\<exists>prod_locations. get_prod_locations (prod_reply e) = Inr prod_locations
        \<and> commit_error e = None
        \<and> fst (automated_container_cleanup e db) =
            fst (remove_containers e (flag_containers e prod_locations (select_requests db)) db 0))"
  by (auto simp: automated_container_cleanup_def Let_def rollback_def
      split: sum.splits option.splits)

lemma select_requests_cong:
  "requests db2 = requests db1 \<Longrightarrow> select_requests db2 = select_requests db1"
  by (simp add: select_requests_def)

text \<open>
  Claim C9, as amended. A second scheduled pass, run after the first in an environment
  that differs from the first only in the two clocks (same production set, same
  container locations, same database availability, the same history writes, DELETE
  statements and commits succeeding), deletes nothing: \<^verbatim>\<open>REQUESTS\<close> is as the first pass
  left it.
\<close>

theorem second_pass_changes_nothing:
  "requests (fst (automated_container_cleanup (e\<lparr>utcnow := t, now := t'\<rparr>)
          (fst (automated_container_cleanup e db))))
   = requests (fst (automated_container_cleanup e db))"
proof -
  let ?e' = "e\<lparr>utcnow := t, now := t'\<rparr>"
  let ?db1 = "fst (automated_container_cleanup e db)"
  from automated_requests [of ?e' ?db1] show ?thesis
  proof (elim disjE exE conjE)
    assume "requests (fst (automated_container_cleanup ?e' ?db1)) = requests ?db1"
    then show ?thesis .
  next
    fix prod_locations
    assume p: "get_prod_locations (prod_reply ?e') = Inr prod_locations"
      and c: "commit_error ?e' = None"
      and run2: "fst (automated_container_cleanup ?e' ?db1) =
        fst (remove_containers ?e' (flag_containers ?e' prod_locations (select_requests ?db1)) ?db1 0)"
    let ?cs1 = "flag_containers e prod_locations (select_requests db)"
    let ?cs2 = "flag_containers e prod_locations (select_requests ?db1)"
    have r2: "requests (fst (remove_containers ?e' ?cs2 ?db1 0)) =
        filter (\<lambda>r. req_id r \<notin> c_req_id `
          {c \<in> set ?cs2. history_logged e c \<and> delete_executes e c}) (requests ?db1)"
      by (simp add: remove_containers_requests)
    from automated_requests [of e db] show ?thesis
    proof (elim disjE exE conjE)
      assume same: "requests ?db1 = requests db"
      show ?thesis
      proof (cases "requests (fst (automated_container_cleanup e ?db1)) = requests ?db1")
        case True
        have "requests (fst (automated_container_cleanup ?e' ?db1)) =
            requests (fst (automated_container_cleanup e ?db1))"
          using p c same
          by (auto simp: automated_container_cleanup_def Let_def rollback_def
              remove_containers_requests
              split: sum.splits option.splits)
        with True show ?thesis by simp
      next
        case False
        have "requests (fst (automated_container_cleanup e ?db1)) =
            requests (fst (automated_container_cleanup e db))"
          using same select_requests_cong [OF same]
          by (auto simp: automated_container_cleanup_def Let_def rollback_def
              remove_containers_requests
              split: sum.splits option.splits)
        with same False show ?thesis by simp
      qed
    next
      fix prod_locations1
      assume p1: "get_prod_locations (prod_reply e) = Inr prod_locations1"
        and run1: "?db1 = fst (remove_containers e
           (flag_containers e prod_locations1 (select_requests db)) db 0)"
      from p p1 have "prod_locations1 = prod_locations" by simp
      with run1 have "requests ?db1 = requests (fst (remove_containers e ?cs1 db 0))"
        by simp
      from second_pass_removes_none [OF this, of 0]
      have "requests (fst (remove_containers e ?cs2 ?db1 0)) = requests ?db1" .
      then have "requests (fst (remove_containers ?e' ?cs2 ?db1 0)) = requests ?db1"
        by (simp add: remove_containers_requests)
      with run2 show ?thesis by simp
    qed
  qed
qed

text \<open>
  Claim C9 as stated fails: with the ERP's answers unchanged, a history INSERT that
  failed in the first pass and succeeds in the second makes the second pass delete the
  request the first one kept.
\<close>

theorem second_pass_deletes_after_history_recovers:
  "requests (fst (automated_container_cleanup
       (example_env (erp_at [(''S1001'', ''PROD-A'')]) (\<lambda>_ _. False))
       (example_db [example_request 0 ''S1001'' ''PICK_UP'']))) = [example_request 0 ''S1001'' ''PICK_UP'']
   \<and> requests (fst (automated_container_cleanup
       (example_env (erp_at [(''S1001'', ''PROD-A'')]) (\<lambda>_ _. True))
       (fst (automated_container_cleanup
          (example_env (erp_at [(''S1001'', ''PROD-A'')]) (\<lambda>_ _. False))
          (example_db [example_request 0 ''S1001'' ''PICK_UP'']))))) = []"
  by (simp add: example_defs run_defs)

text \<open>
  The history is not covered by the amended claim: while the DELETE of a candidate
  fails, every pass commits one more history row for it and keeps the request.
\<close>

lemma second_pass_logs_again_while_delete_fails:
  "requests (fst (automated_container_cleanup
       ((example_env (erp_at [(''S1001'', ''PROD-A'')]) (\<lambda>_ _. True))
          \<lparr>delete_error := (\<lambda>_. Some ''deadlock'')\<rparr>)
       (fst (automated_container_cleanup
          ((example_env (erp_at [(''S1001'', ''PROD-A'')]) (\<lambda>_ _. True))
             \<lparr>delete_error := (\<lambda>_. Some ''deadlock'')\<rparr>)
          (example_db [example_request 0 ''S1001'' ''PICK_UP'']))))) = [example_request 0 ''S1001'' ''PICK_UP'']
   \<and> map h_serial_no (requests_history (fst (automated_container_cleanup
       ((example_env (erp_at [(''S1001'', ''PROD-A'')]) (\<lambda>_ _. True))
          \<lparr>delete_error := (\<lambda>_. Some ''deadlock'')\<rparr>)
       (example_db [example_request 0 ''S1001'' ''PICK_UP''])))) = [''S1001'']
   \<and> map h_serial_no (requests_history (fst (automated_container_cleanup
       ((example_env (erp_at [(''S1001'', ''PROD-A'')]) (\<lambda>_ _. True))
          \<lparr>delete_error := (\<lambda>_. Some ''deadlock'')\<rparr>)
       (fst (automated_container_cleanup
          ((example_env (erp_at [(''S1001'', ''PROD-A'')]) (\<lambda>_ _. True))
             \<lparr>delete_error := (\<lambda>_. Some ''deadlock'')\<rparr>)
          (example_db [example_request 0 ''S1001'' ''PICK_UP'']))))))
     = [''S1001'', ''S1001'']"
  by (simp add: example_defs run_defs)

section \<open>Requests a pass keeps\<close>

text \<open>
  From a table whose request ids are distinct, a pass removes only requests that are not
  put-backs and that the ERP located.
\<close>

lemma automated_removes_only_flagged:
  assumes d: "distinct (map req_id (requests db))"
    and r: "r \<in> set (requests db)"
    and gone: "r \<notin> set (requests (fst (automated_container_cleanup e db)))"
  shows "request_type r \<noteq> Some ''PUT_BACK'' \<and>
         (\<exists>current. check_container_current_location e (serial_no r) = Some current
            \<and> current \<noteq> [])"
proof -
  from automated_effect [of e db] gone r obtain prod_locations where
    run: "fst (automated_container_cleanup e db) =
      fst (remove_containers e (flag_containers e prod_locations (select_requests db)) db 0)"
    by (auto simp: rollback_def)
  let ?cs = "flag_containers e prod_locations (select_requests db)"
  from r gone have "req_id r \<in> c_req_id `
      {c \<in> set ?cs. history_logged e c \<and> delete_executes e c}"
    unfolding run by (simp add: remove_containers_requests)
  then obtain c where c: "c \<in> set ?cs" "c_req_id c = req_id r" by auto
  from c(1) obtain r' current where r': "r' \<in> set (requests db)"
    "request_type r' \<noteq> Some ''PUT_BACK''"
    "check_container_current_location e (serial_no r') = Some current"
    "current \<noteq> []" "c = flagged r' current"
    by (auto simp: flag_containers_iff)
  from c(2) r'(5) have "req_id r' = req_id r" by (simp add: flagged_def)
  with d r r'(1) have "r' = r" by (rule same_req_id_same_row)
  with r' show ?thesis by blast
qed

lemma manual_removes_only_flagged:
  assumes d: "distinct (map req_id (requests db))"
    and r: "r \<in> set (requests db)"
    and gone: "r \<notin> set (requests (fst (manual_container_cleanup e db)))"
  shows "request_type r \<noteq> Some ''PUT_BACK'' \<and>
         (\<exists>current. check_container_current_location e (serial_no r) = Some current
            \<and> current \<noteq> [])"
proof -
  from manual_effect [of e db] gone r obtain prod_locations where
    run: "fst (manual_container_cleanup e db) =
      fst (remove_containers_manual e
             (flag_containers_manual e prod_locations (select_requests db)) db [])"
    by (auto simp: rollback_def)
  let ?cs = "flag_containers_manual e prod_locations (select_requests db)"
  from r gone have "req_id r \<in> c_req_id `
      {c \<in> set ?cs. history_insert_ok e (c_req_id c) (c_serial_no c) \<and> delete_executes e c}"
    unfolding run by (simp add: remove_containers_manual_requests)
  then obtain c where c: "c \<in> set ?cs" "c_req_id c = req_id r" by auto
  from c(1) obtain r' current where r': "r' \<in> set (requests db)"
    "request_type r' \<noteq> Some ''PUT_BACK''"
    "check_container_current_location e (serial_no r') = Some current"
    "current \<noteq> []" "c = flagged_manual r' current"
    by (auto simp: flag_containers_manual_iff)
  from c(2) r'(5) have "req_id r' = req_id r" by (simp add: flagged_manual_def flagged_def)
  with d r r'(1) have "r' = r" by (rule same_req_id_same_row)
  with r' show ?thesis by blast
qed

lemma put_back_kept_when_ids_distinct:
  assumes "distinct (map req_id (requests db))" "r \<in> set (requests db)"
    and "request_type r = Some ''PUT_BACK''"
  shows "r \<in> set (requests (fst (automated_container_cleanup e db)))"
    and "r \<in> set (requests (fst (manual_container_cleanup e db)))"
  using assms automated_removes_only_flagged manual_removes_only_flagged by blast+

lemma unlocated_kept_when_ids_distinct:
  assumes "distinct (map req_id (requests db))" "r \<in> set (requests db)"
    and "check_container_current_location e (serial_no r) = None"
  shows "r \<in> set (requests (fst (automated_container_cleanup e db)))"
    and "r \<in> set (requests (fst (manual_container_cleanup e db)))"
  using assms automated_removes_only_flagged [of db r e] manual_removes_only_flagged [of db r e]
  by auto

text \<open>
  Claim C3. A put-back request is skipped by the flagging loop, but the DELETE of a
  flagged request goes by request id. Here a first process takes a put-back submission
  (request id 0), a second process takes a pick-up submission (request id 0 again, the
  counter having restarted), the ERP locates the second container in production, and
  the scheduled pass removes both rows; the history holds the pick-up only.
\<close>

theorem put_back_removed_with_shared_req_id:
  "map (\<lambda>r. (req_id r, serial_no r, request_type r))
     (requests (two_processes (example_env (erp_at [(''S1002'', ''PROD-A'')]) (\<lambda>_ _. True))
        (example_submission ''S1001'' ''PUT_BACK'') (example_submission ''S1002'' ''PICK_UP'')))
     = [(0, ''S1001'', Some ''PUT_BACK''), (0, ''S1002'', Some ''PICK_UP'')]
   \<and> requests (fst (automated_container_cleanup
        (example_env (erp_at [(''S1002'', ''PROD-A'')]) (\<lambda>_ _. True))
        (two_processes (example_env (erp_at [(''S1002'', ''PROD-A'')]) (\<lambda>_ _. True))
           (example_submission ''S1001'' ''PUT_BACK'') (example_submission ''S1002'' ''PICK_UP'')))) = []
   \<and> map h_serial_no (requests_history (fst (automated_container_cleanup
        (example_env (erp_at [(''S1002'', ''PROD-A'')]) (\<lambda>_ _. True))
        (two_processes (example_env (erp_at [(''S1002'', ''PROD-A'')]) (\<lambda>_ _. True))
           (example_submission ''S1001'' ''PUT_BACK'') (example_submission ''S1002'' ''PICK_UP''))))) = [''S1002'']"
  by (simp add: example_defs run_defs)

text \<open>
  Claim C5. The same two processes with two pick-up submissions; the ERP knows nothing
  of the first container and locates the second in production. The first request is
  not flagged, and the scheduled pass removes it with the second.
\<close>

theorem unlocated_request_removed_with_shared_req_id:
  "check_container_current_location
     (example_env (erp_at [(''S1002'', ''PROD-A'')]) (\<lambda>_ _. True)) ''S1001'' = None
   \<and> map (\<lambda>r. (req_id r, serial_no r, request_type r))
     (requests (two_processes (example_env (erp_at [(''S1002'', ''PROD-A'')]) (\<lambda>_ _. True))
        (example_submission ''S1001'' ''PICK_UP'') (example_submission ''S1002'' ''PICK_UP'')))
     = [(0, ''S1001'', Some ''PICK_UP''), (0, ''S1002'', Some ''PICK_UP'')]
   \<and> map c_serial_no (flag_containers
        (example_env (erp_at [(''S1002'', ''PROD-A'')]) (\<lambda>_ _. True)) [''PROD-A'', ''PROD-B'']
        (select_requests (two_processes (example_env (erp_at [(''S1002'', ''PROD-A'')]) (\<lambda>_ _. True))
           (example_submission ''S1001'' ''PICK_UP'') (example_submission ''S1002'' ''PICK_UP''))))
     = [''S1002'']
   \<and> requests (fst (automated_container_cleanup
        (example_env (erp_at [(''S1002'', ''PROD-A'')]) (\<lambda>_ _. True))
        (two_processes (example_env (erp_at [(''S1002'', ''PROD-A'')]) (\<lambda>_ _. True))
           (example_submission ''S1001'' ''PICK_UP'') (example_submission ''S1002'' ''PICK_UP'')))) = []
   \<and> map h_serial_no (requests_history (fst (automated_container_cleanup
        (example_env (erp_at [(''S1002'', ''PROD-A'')]) (\<lambda>_ _. True))
        (two_processes (example_env (erp_at [(''S1002'', ''PROD-A'')]) (\<lambda>_ _. True))
           (example_submission ''S1001'' ''PICK_UP'') (example_submission ''S1002'' ''PICK_UP''))))) = [''S1002'']"
  by (simp add: example_defs run_defs)

section \<open>The manual cleanup\<close>

text \<open>
  When the production set is not empty, at most ten containers are flagged and no request
  time is NULL, the manual cleanup leaves the same requests as the scheduled pass.
\<close>

lemma manual_agrees_below_ceiling:
  assumes p: "get_prod_locations (prod_reply e) = Inr prod_locations"
    and ne: "prod_locations \<noteq> []"
    and up: "db_error e = None"
    and few: "length (flag_containers e prod_locations (select_requests db)) \<le> 10"
    and times: "\<forall>r \<in> set (requests db). req_time r \<noteq> None"
  shows "requests (fst (manual_container_cleanup e db))
       = requests (fst (automated_container_cleanup e db))"
proof -
  let ?rs = "select_requests db"
  let ?cs = "flag_containers e prod_locations ?rs"
  let ?csm = "flag_containers_manual e prod_locations ?rs"
  let ?ok = "\<lambda>c. history_insert_ok e (c_req_id c) (c_serial_no c) \<and> delete_executes e c"
  let ?lg = "\<lambda>c. history_logged e c \<and> delete_executes e c"
  let ?fine = "removal_error e = None \<and> commit_error e = None"
  have a: "requests (fst (automated_container_cleanup e db))
      = (if ?fine then requests (fst (remove_containers e ?cs db 0)) else requests db)"
    using p ne up few by (cases "?cs = []")
      (auto simp: automated_container_cleanup_def Let_def rollback_def split: option.splits)
  have m: "requests (fst (manual_container_cleanup e db))
      = (if ?fine then requests (fst (remove_containers_manual e ?csm db [])) else requests db)"
    using p up by (cases "?csm = []")
      (auto simp: manual_container_cleanup_def Let_def rollback_def
        split: prod.splits option.splits)
  have "c_req_id ` {c \<in> set ?csm. ?ok c} = c_req_id ` {c \<in> set ?cs. ?lg c}"
  proof (intro set_eqI iffI)
    fix i assume "i \<in> c_req_id ` {c \<in> set ?csm. ?ok c}"
    then obtain r current where r: "r \<in> set (requests db)"
      "request_type r \<noteq> Some ''PUT_BACK''"
      "check_container_current_location e (serial_no r) = Some current"
      "current \<noteq> []" "current \<in> set prod_locations"
      "history_insert_ok e (req_id r) (serial_no r)" "i = req_id r"
      "delete_error e (Delete_by_req_id (req_id r)) = None"
      by (auto simp: flag_containers_manual_iff flagged_manual_def flagged_def
          delete_executes_def)
    then have "flagged r current \<in> set ?cs" by (auto simp: flag_containers_iff)
    moreover have "?lg (flagged r current)"
      using r times by (simp add: history_logged_def delete_executes_def flagged_def)
    ultimately show "i \<in> c_req_id ` {c \<in> set ?cs. ?lg c}"
      using r(7) by (force simp: flagged_def)
  next
    fix i assume "i \<in> c_req_id ` {c \<in> set ?cs. ?lg c}"
    then obtain r current where r: "r \<in> set (requests db)"
      "request_type r \<noteq> Some ''PUT_BACK''"
      "check_container_current_location e (serial_no r) = Some current"
      "current \<noteq> []" "current \<in> set prod_locations"
      "history_insert_ok e (req_id r) (serial_no r)" "i = req_id r"
      "delete_error e (Delete_by_req_id (req_id r)) = None"
      by (auto simp: flag_containers_iff history_logged_def flagged_def delete_executes_def)
    then have "flagged_manual r current \<in> set ?csm" by (auto simp: flag_containers_manual_iff)
    moreover have "?ok (flagged_manual r current)"
      using r by (simp add: delete_executes_def flagged_manual_def flagged_def)
    ultimately show "i \<in> c_req_id ` {c \<in> set ?csm. ?ok c}"
      using r(7) by (force simp: flagged_manual_def flagged_def)
  qed
  then show ?thesis
    by (simp add: a m remove_containers_requests remove_containers_manual_requests)
qed

text \<open>
  Claim C6. With eleven requests located in production the scheduled pass deletes
  nothing, and the manual cleanup, which has no check of the count, writes eleven
  history rows and deletes all eleven requests.
\<close>

theorem manual_cleanup_has_no_safety_gate:
  "length (flag_containers_manual (example_env (\<lambda>_. Erp_records [Some ''PROD-A'']) (\<lambda>_ _. True))
      [''PROD-A'', ''PROD-B''] (select_requests (example_db eleven_requests))) = 11
   \<and> fst (automated_container_cleanup (example_env (\<lambda>_. Erp_records [Some ''PROD-A'']) (\<lambda>_ _. True))
        (example_db eleven_requests)) = example_db eleven_requests
   \<and> requests (fst (manual_container_cleanup (example_env (\<lambda>_. Erp_records [Some ''PROD-A'']) (\<lambda>_ _. True))
        (example_db eleven_requests))) = []
   \<and> length (requests_history (fst (manual_container_cleanup
        (example_env (\<lambda>_. Erp_records [Some ''PROD-A'']) (\<lambda>_ _. True))
        (example_db eleven_requests)))) = 11"
  by (simp add: example_defs run_defs)

section \<open>The completion notification\<close>

text \<open>
  Claim C7. One request located in production whose history INSERT fails: nothing is
  deleted and \<^verbatim>\<open>successful_deletions\<close> is 0, yet the notification reports one removed
  container and lists it.
\<close>

theorem completion_counts_flagged_not_deleted:
  "automated_container_cleanup (example_env (erp_at [(''S1001'', ''PROD-A'')]) (\<lambda>_ _. False))
     (example_db [example_request 0 ''S1001'' ''PICK_UP''])
   = (example_db [example_request 0 ''S1001'' ''PICK_UP''],
      [Auto_cleanup_complete 1 1 [(''S1001'', ''PROD-A'', ''WC-7'')] 7325000000])
   \<and> snd (remove_containers (example_env (erp_at [(''S1001'', ''PROD-A'')]) (\<lambda>_ _. False))
        (flag_containers (example_env (erp_at [(''S1001'', ''PROD-A'')]) (\<lambda>_ _. False))
           [''PROD-A'', ''PROD-B''] (select_requests (example_db [example_request 0 ''S1001'' ''PICK_UP''])))
        (example_db [example_request 0 ''S1001'' ''PICK_UP'']) 0) = 0"
  by (simp add: example_defs run_defs)

section \<open>Request ids\<close>

text \<open>
  Within one process the counter moves on by one with every inserted request and stays
  when the INSERT or its commit fails.
\<close>

lemma request_serial_no_counter:
  "request_serial_no e data counter db = (msg, counter', db') \<Longrightarrow>
     (msg = ''Error'' \<and> counter' = counter \<and> requests db' = requests db) \<or>
     (msg = ''Success'' \<and> counter' = counter + 1 \<and>
      (\<exists>r. requests db' = requests db @ [r] \<and> req_id r = counter))"
  by (auto simp: request_serial_no_def insert_request_def rollback_def Let_def
      split: option.splits)

lemma request_master_unit_counter:
  "request_master_unit e data counter db = (msg, counter', db') \<Longrightarrow>
     (msg = ''Error'' \<and> counter' = counter \<and> requests db' = requests db) \<or>
     (msg = ''Success'' \<and> counter' = counter + 1 \<and>
      (\<exists>r. requests db' = requests db @ [r] \<and> req_id r = counter))"
  by (auto simp: request_master_unit_def insert_request_def rollback_def Let_def
      split: option.splits)

text \<open>
  Claim C10. The first process gives its first request the id 0 and ends with the
  counter at 1; the next process starts at 0 again, and its first request gets the id 0
  as well: two different requests in \<^verbatim>\<open>REQUESTS\<close> carry the same id.
\<close>

theorem req_id_reused_after_restart:
  "request_serial_no (example_env (erp_at []) (\<lambda>_ _. True))
      (example_submission ''S1001'' ''PICK_UP'') 0 (example_db [])
    = (''Success'', 1, example_db [] \<lparr>requests := [example_request 0 ''S1001'' ''PICK_UP''],
         journal := [Insert_request (example_request 0 ''S1001'' ''PICK_UP'')]\<rparr>)
   \<and> restart 1 = 0
   \<and> map (\<lambda>r. (req_id r, serial_no r))
     (requests (two_processes (example_env (erp_at []) (\<lambda>_ _. True))
        (example_submission ''S1001'' ''PICK_UP'') (example_submission ''S1002'' ''PICK_UP'')))
     = [(0, ''S1001''), (0, ''S1002'')]"
  by (simp add: example_defs run_defs)

end
